theory Spec2Isabelle
  imports
    Complex_Main
    "HOL-Library.Word"
    "HOL-Library.Signed_Division"
    "HOL-Library.Multiset"
begin

section \<open>Machine integers of the solver core\<close>

text \<open>
  \<^verbatim>\<open>dlong\<close> is the device index type of the library and \<^verbatim>\<open>int\<close> the C++ type of
  \<^verbatim>\<open>Nblocks\<close> and \<^verbatim>\<open>CG_BLOCKSIZE\<close>; both are 32-bit two's-complement integers here
  (the header that declares \<^verbatim>\<open>dlong\<close> is not among the sources; \<^verbatim>\<open>Nblocks\<close>, which
  receives a \<^verbatim>\<open>dlong\<close> expression, is declared \<^verbatim>\<open>int\<close>). Addition and subtraction
  wrap around, \<open>sint\<close> reads the signed value, and \<open>c_div\<close> is the division of
  C++, which truncates towards zero.
\<close>

type_synonym dlong = "32 word"
type_synonym cint = "32 word"

definition c_div :: "32 word \<Rightarrow> 32 word \<Rightarrow> 32 word" where
  "c_div a b = word_of_int (sint a sdiv sint b)"

text \<open>A \<^verbatim>\<open>dlong\<close> used as the length of a loop: a negative bound runs no iteration.\<close>

definition len :: "dlong \<Rightarrow> nat" where
  "len n = nat (sint n)"

text \<open>\<^verbatim>\<open>constexpr int CG_BLOCKSIZE = 1024;\<close>\<close>

definition CG_BLOCKSIZE :: cint where
  "CG_BLOCKSIZE = 1024"

text \<open>
  The block count of \<^verbatim>\<open>cg::UpdateCG\<close>:
  \<^verbatim>\<open>int Nblocks = (N+CG_BLOCKSIZE-1)/CG_BLOCKSIZE;\<close>
  \<^verbatim>\<open>Nblocks = (Nblocks>CG_BLOCKSIZE) ? CG_BLOCKSIZE : Nblocks;\<close>
\<close>

definition UpdateCG_Nblocks :: "dlong \<Rightarrow> cint" where
  "UpdateCG_Nblocks n =
     (let Nblocks = c_div (n + CG_BLOCKSIZE - 1) CG_BLOCKSIZE
      in if sint CG_BLOCKSIZE < sint Nblocks then CG_BLOCKSIZE else Nblocks)"

section \<open>The local operator (src/localOperator.cpp)\<close>

text \<open>
  \<^verbatim>\<open>dfloat\<close> is the floating-point type of the library. The local operator does no
  arithmetic of its own: it hands the vectors to the kernel, which is a parameter. The
  entries are real numbers here. (The solver further down computes with the entries and
  is written for every element type.)

  An \<^verbatim>\<open>occa::memory\<close> that holds a vector is a handle of a device buffer; two
  arguments may name the same buffer. The device is the store from handles to
  contents. The mesh data are read only and are kept as values.
\<close>

type_synonym dfloat = real
type_synonym handle = nat
type_synonym device = "handle \<Rightarrow> dfloat list"

text \<open>
  The compiled kernel \<^verbatim>\<open>localOperatorKernel\<close> is a field of \<^verbatim>\<open>hipBone_t\<close>; its source
  is not part of the verified files, so it is a parameter: from the element count, the
  element list, the geometric factors, the differentiation matrix, \<open>lambda\<close>, the
  contents of the input buffer and of the output buffer it gives the new contents of
  the output buffer.
\<close>

type_synonym kernel_t =
  "dlong \<Rightarrow> dlong list \<Rightarrow> dfloat list \<Rightarrow> dfloat list \<Rightarrow> dfloat \<Rightarrow> dfloat list \<Rightarrow> dfloat list
     \<Rightarrow> dfloat list"

record mesh_t =
  NlocalGatherElements :: dlong
  NglobalGatherElements :: dlong
  o_localGatherElementList :: "dlong list"
  o_globalGatherElementList :: "dlong list"
  o_ggeo :: "dfloat list"
  o_D :: "dfloat list"

record hipBone_t =
  mesh :: mesh_t
  lambda :: dfloat
  o_AqL :: handle
  localOperatorKernel :: kernel_t

text \<open>
  \<^verbatim>\<open>memory + bytes\<close> is the slice of a buffer that starts \<open>bytes\<close> bytes in; for a
  buffer of \<^verbatim>\<open>dlong\<close> that is \<open>bytes div sizeof(dlong)\<close> entries in. The offset
  \<^verbatim>\<open>(mesh.NlocalGatherElements/2)*sizeof(dlong)\<close> is computed in \<^verbatim>\<open>size_t\<close>: the
  \<^verbatim>\<open>int\<close> quotient is converted to 64 bits and multiplied there.
\<close>

definition sizeof_dlong :: nat where
  "sizeof_dlong = 4"

definition occa_plus :: "dlong list \<Rightarrow> nat \<Rightarrow> dlong list" where
  "occa_plus m bytes = drop (bytes div sizeof_dlong) m"

definition second_half_offset :: "dlong \<Rightarrow> nat" where
  "second_half_offset nl = unat ((scast (c_div nl 2) :: 64 word) * of_nat sizeof_dlong)"

text \<open>
  One kernel launch, as the run records it: the element count and the element list
  it was given. The run of \<^verbatim>\<open>LocalOperator\<close> is the device together with the launches
  issued so far.
\<close>

record launch =
  l_count :: dlong
  l_list :: "dlong list"

record lo_run =
  dev :: device
  launches :: "launch list"

definition launch_kernel :: "hipBone_t \<Rightarrow> dlong \<Rightarrow> dlong list \<Rightarrow> handle \<Rightarrow> handle \<Rightarrow> lo_run \<Rightarrow> lo_run" where
  "launch_kernel hb cnt lst qh ah st =
     \<lparr> dev = (dev st)(ah := localOperatorKernel hb cnt lst (o_ggeo (mesh hb)) (o_D (mesh hb))
                               (lambda hb) (dev st qh) (dev st ah)),
       launches = launches st @ [\<lparr> l_count = cnt, l_list = lst \<rparr>] \<rparr>"

text \<open>
  \<^verbatim>\<open>void hipBone_t::LocalOperator(occa::memory &o_qL, occa::memory &o_Aq)\<close>: three
  guarded launches, each with the field \<^verbatim>\<open>o_AqL\<close> as the output buffer. The argument
  \<open>o_Aq\<close> does not occur in the body.
\<close>

definition LocalOperator :: "hipBone_t \<Rightarrow> handle \<Rightarrow> handle \<Rightarrow> lo_run \<Rightarrow> lo_run" where
  "LocalOperator hb o_qL o_Aq st0 =
     (let m = mesh hb;
          st1 = (if c_div (NlocalGatherElements m) 2 \<noteq> 0
                 then launch_kernel hb (c_div (NlocalGatherElements m) 2)
                        (o_localGatherElementList m) o_qL (o_AqL hb) st0
                 else st0);
          st2 = (if NglobalGatherElements m \<noteq> 0
                 then launch_kernel hb (NglobalGatherElements m)
                        (o_globalGatherElementList m) o_qL (o_AqL hb) st1
                 else st1);
          st3 = (if c_div (NlocalGatherElements m + 1) 2 \<noteq> 0
                 then launch_kernel hb (c_div (NlocalGatherElements m + 1) 2)
                        (occa_plus (o_localGatherElementList m)
                           (second_half_offset (NlocalGatherElements m)))
                        o_qL (o_AqL hb) st2
                 else st2)
      in st3)"

text \<open>
  The three dispatches the function considers, in its order, whether or not it issues
  them.
\<close>

definition dispatches :: "hipBone_t \<Rightarrow> launch list" where
  "dispatches hb =
     (let m = mesh hb in
      [ \<lparr> l_count = c_div (NlocalGatherElements m) 2, l_list = o_localGatherElementList m \<rparr>,
        \<lparr> l_count = NglobalGatherElements m, l_list = o_globalGatherElementList m \<rparr>,
        \<lparr> l_count = c_div (NlocalGatherElements m + 1) 2,
          l_list = occa_plus (o_localGatherElementList m)
                     (second_half_offset (NlocalGatherElements m)) \<rparr> ])"

text \<open>
  The elements a launch works on: the kernel is given a count and a list and visits
  the first \<open>count\<close> entries of the list.
\<close>

definition launch_elements :: "launch \<Rightarrow> dlong list" where
  "launch_elements l = take (len (l_count l)) (l_list l)"

definition dispatched_elements :: "lo_run \<Rightarrow> dlong list" where
  "dispatched_elements st = concat (map launch_elements (launches st))"

text \<open>
  A concrete kernel for evaluating the function: every listed element \<open>e\<close> owns one
  entry of the vectors and the operator multiplies it by \<open>lambda\<close>.
\<close>

fun scale_elements :: "dlong list \<Rightarrow> dfloat \<Rightarrow> dfloat list \<Rightarrow> dfloat list \<Rightarrow> dfloat list" where
  "scale_elements [] c q Aq = Aq"
| "scale_elements (e # es) c q Aq = scale_elements es c q (Aq[unat e := c * q ! unat e])"

definition scale_kernel :: kernel_t where
  "scale_kernel cnt lst ggeo D c q Aq = scale_elements (take (len cnt) lst) c q Aq"

definition example_mesh :: mesh_t where
  "example_mesh =
     \<lparr> NlocalGatherElements = 3, NglobalGatherElements = 1,
       o_localGatherElementList = [0, 2, 3], o_globalGatherElementList = [1],
       o_ggeo = [], o_D = [] \<rparr>"

definition example_hipBone :: hipBone_t where
  "example_hipBone =
     \<lparr> mesh = example_mesh, lambda = 2, o_AqL = 2, localOperatorKernel = scale_kernel \<rparr>"

definition example_device :: device where
  "example_device = (\<lambda>h. if h = 0 then [1, 2, 3, 4] else [0, 0, 0, 0])"

text \<open>
  A mesh whose local-only list has \<open>INT_MAX\<close> entries, the largest count a \<^verbatim>\<open>dlong\<close>
  holds.
\<close>

definition overflow_mesh :: mesh_t where
  "overflow_mesh =
     \<lparr> NlocalGatherElements = 2147483647, NglobalGatherElements = 0,
       o_localGatherElementList = map of_nat [0..<2147483647], o_globalGatherElementList = [],
       o_ggeo = [], o_D = [] \<rparr>"

text \<open>A mesh with no element at all.\<close>

definition empty_mesh :: mesh_t where
  "empty_mesh =
     \<lparr> NlocalGatherElements = 0, NglobalGatherElements = 0,
       o_localGatherElementList = [], o_globalGatherElementList = [],
       o_ggeo = [], o_D = [] \<rparr>"

section \<open>The conjugate-gradient solver (libs/core/linearSolverCG.cpp)\<close>

text \<open>
  The element type \<^verbatim>\<open>dfloat\<close> is declared outside the verified files and is chosen
  when the library is built. The solver is therefore written for any type \<open>'a\<close> that
  has the constants and operations the code uses (\<open>0\<close>, \<open>1\<close>, \<open>+\<close>, \<open>-\<close>, \<open>*\<close>,
  \<open>/\<close> and the comparisons), and nothing is assumed of them: no law of arithmetic, no
  law of the order, no value for a quotient by zero. What is proved of the solver for
  every such type holds of a run of the code whatever the arithmetic of \<^verbatim>\<open>dfloat\<close>
  does to round, to overflow or to divide by zero. Concrete runs are evaluated in two
  such types: the real numbers, where no run below divides by zero, and further down a
  type with infinities and NaN, for the runs that overflow or divide by zero.

  A device vector is the list of its entries. The caller's vectors and the solver's own
  are distinct buffers, so they are passed and returned as values.
\<close>

type_synonym 'a vec = "'a list"

text \<open>
  The fields of \<^verbatim>\<open>cg\<close> that hold data: the sizes and the two scratch vectors. The
  staging locations \<^verbatim>\<open>tmprdotr\<close> and \<^verbatim>\<open>o_tmprdotr\<close> are written before they are read
  in every call of \<^verbatim>\<open>UpdateCG\<close>; they are local values there.
\<close>

record 'a cg_t =
  N :: dlong
  Nhalo :: dlong
  o_p :: "'a vec"
  o_Ap :: "'a vec"

text \<open>
  The constructor \<^verbatim>\<open>cg::cg(platform, _N, _Nhalo)\<close>: the base class keeps the two
  sizes; \<^verbatim>\<open>dummy\<close> is \<^verbatim>\<open>calloc(Ntotal, sizeof(dfloat))\<close>, all zero, and both scratch
  vectors are allocated with \<^verbatim>\<open>dummy\<close> as their initial contents. A negative
  \<^verbatim>\<open>Ntotal\<close> is no size: the allocation fails and no solver is built.
\<close>

definition cg :: "dlong \<Rightarrow> dlong \<Rightarrow> 'a::zero cg_t option" where
  "cg N0 Nhalo0 =
     (let Ntotal = N0 + Nhalo0 in
      if sint Ntotal < 0 then None
      else (let dummy = replicate (len Ntotal) 0
            in Some \<lparr> N = N0, Nhalo = Nhalo0, o_p = dummy, o_Ap = dummy \<rparr>))"

text \<open>
  Modelled from the spec: \<^verbatim>\<open>linAlg.axpy\<close>, whose source is not among the verified files.
  The spec gives \<^verbatim>\<open>axpy(n, a, X, b, Y)\<close> as \<open>Y = a\<cdot>X + b\<cdot>Y\<close> over the explicit length
  \<open>n\<close>. A vector shorter than \<open>n\<close> is an out-of-range access: no result.
\<close>

definition axpy :: "dlong \<Rightarrow> 'a \<Rightarrow> 'a vec \<Rightarrow> 'a \<Rightarrow> 'a vec \<Rightarrow> 'a::{plus,times} vec option" where
  "axpy n a X b Y =
     (if len n \<le> length X \<and> len n \<le> length Y
      then Some (map2 (\<lambda>x y. a * x + b * y) (take (len n) X) (take (len n) Y) @ drop (len n) Y)
      else None)"

text \<open>
  Modelled from the spec: the kernel \<^verbatim>\<open>updateCG_r_atomic\<close>, whose source is not among
  the verified files. By the spec it updates \<open>r \<leftarrow> r - alpha\<cdot>Ap\<close> element-wise over the
  \<open>n\<close> entries, block by block, and adds each block's sum of squares of the updated
  entries to the accumulator; whatever the number of blocks, they share all \<open>n\<close>
  entries among them. Neither the spec nor the code fixes the order of the additions;
  the squares are summed here from the last entry to the first (\<open>sumsq\<close>) and the sum
  is added to the accumulator. With entries to work on and no block to run, the launch
  is refused.
\<close>

definition sumsq :: "'a::{zero,plus,times} vec \<Rightarrow> 'a" where
  "sumsq X = foldr (\<lambda>v s. v * v + s) X 0"

definition updateCGKernel_r ::
    "dlong \<Rightarrow> cint \<Rightarrow> 'a vec \<Rightarrow> 'a \<Rightarrow> 'a vec \<Rightarrow> 'a
      \<Rightarrow> ('a::{zero,plus,minus,times} vec \<times> 'a) option" where
  "updateCGKernel_r n Nblocks Ap a r acc =
     (if 0 < len n \<and> sint Nblocks \<le> 0 then None
      else if len n \<le> length r \<and> len n \<le> length Ap
      then (let r' = map2 (\<lambda>ri api. ri - a * api) (take (len n) r) (take (len n) Ap)
                     @ drop (len n) r
            in Some (r', acc + sumsq (take (len n) r')))
      else None)"

text \<open>
  The reductions over the communicator (\<^verbatim>\<open>linAlg.norm2\<close>, \<^verbatim>\<open>linAlg.innerProd\<close> and
  \<^verbatim>\<open>MPI_Allreduce\<close> with \<^verbatim>\<open>MPI_SUM\<close>) belong to collaborators outside the verified
  files; the solver takes them as parameters. On a communicator of one process and in
  the arithmetic of the real numbers they are the local norm, the local inner product
  and the identity.
\<close>

record 'a reductions =
  norm2 :: "dlong \<Rightarrow> 'a vec \<Rightarrow> 'a"
  innerProd :: "dlong \<Rightarrow> 'a vec \<Rightarrow> 'a vec \<Rightarrow> 'a"
  Allreduce_sum :: "'a \<Rightarrow> 'a"

definition dot :: "dfloat vec \<Rightarrow> dfloat vec \<Rightarrow> dfloat" where
  "dot X Y = sum_list (map2 (*) X Y)"

definition single_rank :: "dfloat reductions" where
  "single_rank =
     \<lparr> norm2 = (\<lambda>n X. sqrt (sumsq (take (len n) X))),
       innerProd = (\<lambda>n X Y. dot (take (len n) X) (take (len n) Y)),
       Allreduce_sum = (\<lambda>v. v) \<rparr>"

text \<open>
  In floating-point arithmetic the norm is a rounded value, and its square need not be
  the inner product of the vector with itself. The reductions \<open>rounded_rank\<close> are
  those of one process with the norm rounded to the nearest multiple of \<open>1 / 2\<close>.
\<close>

definition rounded_rank :: "dfloat reductions" where
  "rounded_rank =
     single_rank \<lparr> norm2 := \<lambda>n X. of_int \<lfloor>2 * norm2 single_rank n X + 1 / 2\<rfloor> / 2 \<rparr>"

text \<open>
  The operator \<^verbatim>\<open>solver.Operator(o_q, o_Aq)\<close> is a parameter: it receives both buffers
  by reference and gives back both.
\<close>

type_synonym 'a operator_t = "'a vec \<Rightarrow> 'a vec \<Rightarrow> 'a vec \<times> 'a vec"

text \<open>The macro \<^verbatim>\<open>mymax\<close> (declared outside the verified files): the larger argument.\<close>

definition mymax :: "'a::ord \<Rightarrow> 'a \<Rightarrow> 'a" where
  "mymax a b = (if a > b then a else b)"

text \<open>
  \<^verbatim>\<open>dfloat cg::UpdateCG(const dfloat alpha, occa::memory &o_x, occa::memory &o_r)\<close>.
  The accumulator is reset, the kernel updates \<open>r\<close> and accumulates, the accumulator
  is copied to the host, \<open>x\<close> is updated by \<^verbatim>\<open>axpy(N, alpha, o_p, 1.0, o_x)\<close>, and the
  host value is sum-reduced. The result is the reduced value with the new \<open>x\<close> and
  \<open>r\<close>. (The order in time of these steps is the subject of the stream model below.)
\<close>

definition UpdateCG ::
    "'a reductions \<Rightarrow> 'a cg_t \<Rightarrow> 'a \<Rightarrow> 'a vec \<Rightarrow> 'a vec
      \<Rightarrow> ('a::{zero,one,plus,minus,times} \<times> 'a vec \<times> 'a vec) option" where
  "UpdateCG la s a x r =
     (let Nblocks = UpdateCG_Nblocks (N s);
          o_tmprdotr = 0
      in case updateCGKernel_r (N s) Nblocks (o_Ap s) a r o_tmprdotr of
           None \<Rightarrow> None
         | Some (r', o_tmprdotr') \<Rightarrow>
             (let tmprdotr = o_tmprdotr'
              in case axpy (N s) a (o_p s) 1 x of
                   None \<Rightarrow> None
                 | Some x' \<Rightarrow> Some (Allreduce_sum la tmprdotr, x', r')))"

text \<open>
  The variables of \<^verbatim>\<open>cg::Solve\<close> that live across iterations, with the vectors of the
  caller and the solver object. What \<^verbatim>\<open>printf\<close> writes when \<^verbatim>\<open>verbose\<close> is set changes
  none of them and is left out.
\<close>

record 'a cg_vars =
  rdotr :: 'a
  rdotr1 :: 'a
  rdotr2 :: 'a
  alpha :: 'a
  beta :: 'a
  pAp :: 'a
  o_x :: "'a vec"
  o_r :: "'a vec"
  self :: "'a cg_t"

text \<open>
  Lines 80 to 89 of \<^verbatim>\<open>Solve\<close>: \<open>Ap = A x\<close>, \<open>r = r - Ap\<close> by
  \<^verbatim>\<open>axpy(N, -1.f, o_Ap, 1.f, o_r)\<close>, \<open>rdotr\<close> the square of the norm of \<open>r\<close>, and
  \<^verbatim>\<open>TOL = mymax(tol*tol*rdotr,tol*tol)\<close>.
\<close>

definition Solve_init ::
    "'a reductions \<Rightarrow> 'a operator_t \<Rightarrow> 'a cg_t \<Rightarrow> 'a vec \<Rightarrow> 'a vec \<Rightarrow> 'a
      \<Rightarrow> ('a::{zero,one,plus,minus,uminus,times,inverse,ord} \<times> 'a cg_vars) option" where
  "Solve_init la Op s x r tol =
     (let (x1, Ap1) = Op x (o_Ap s)
      in case axpy (N s) (- 1) Ap1 1 r of
           None \<Rightarrow> None
         | Some r1 \<Rightarrow>
             (let nrm = norm2 la (N s) r1;
                  rd = nrm * nrm;
                  TOL = mymax (tol * tol * rd) (tol * tol)
              in Some (TOL, \<lparr> rdotr = rd, rdotr1 = 0, rdotr2 = 0, alpha = 0, beta = 0, pAp = 0,
                               o_x = x1, o_r = r1, self = s \<lparr> o_Ap := Ap1 \<rparr> \<rparr>)))"

text \<open>
  The body of the loop after the exit test (lines 100 to 120), for the iteration
  numbered \<open>iter\<close>. The two quotients are those of the element type: for a divisor
  zero the result is whatever that type's division gives, as in the code, which tests
  neither \<open>pAp\<close> nor \<open>rdotr2\<close>.
\<close>

definition cg_iteration ::
    "'a reductions \<Rightarrow> 'a operator_t \<Rightarrow> int \<Rightarrow> 'a cg_vars
      \<Rightarrow> 'a::{zero,one,plus,minus,uminus,times,inverse,ord} cg_vars option" where
  "cg_iteration la Op iter v =
     (let rdotr2' = rdotr1 v;
          rdotr1' = rdotr v;
          beta' = (if iter = 0 then 0 else rdotr1' / rdotr2')
      in case axpy (N (self v)) 1 (o_r v) beta' (o_p (self v)) of
           None \<Rightarrow> None
         | Some p1 \<Rightarrow>
             (let (p2, Ap2) = Op p1 (o_Ap (self v));
                  s2 = (self v) \<lparr> o_p := p2, o_Ap := Ap2 \<rparr>;
                  pAp' = innerProd la (N (self v)) p2 Ap2;
                  alpha' = rdotr1' / pAp'
              in case UpdateCG la s2 alpha' (o_x v) (o_r v) of
                   None \<Rightarrow> None
                 | Some (rd, x', r') \<Rightarrow>
                     Some \<lparr> rdotr = rd, rdotr1 = rdotr1', rdotr2 = rdotr2', alpha = alpha',
                            beta = beta', pAp = pAp', o_x = x', o_r = r', self = s2 \<rparr>))"

text \<open>
  \<^verbatim>\<open>for(iter=0;iter<MAXIT;++iter){ if(rdotr<=TOL) break; ... }\<close> and \<^verbatim>\<open>return iter;\<close>.
  The counter runs from 0 to at most \<^verbatim>\<open>MAXIT\<close>, so it never leaves the range of
  \<^verbatim>\<open>int\<close>; it is an integer here.
\<close>

function cg_loop ::
    "'a reductions \<Rightarrow> 'a operator_t \<Rightarrow> int \<Rightarrow> 'a \<Rightarrow> int \<Rightarrow> 'a cg_vars
      \<Rightarrow> (int \<times> 'a::{zero,one,plus,minus,uminus,times,inverse,ord} cg_vars) option" where
  "cg_loop la Op MAXIT TOL iter v =
     (if iter < MAXIT
      then (if rdotr v \<le> TOL then Some (iter, v)
            else (case cg_iteration la Op iter v of
                    None \<Rightarrow> None
                  | Some v' \<Rightarrow> cg_loop la Op MAXIT TOL (iter + 1) v'))
      else Some (iter, v))"
  by pat_completeness auto
termination
  by (relation "measure (\<lambda>(la, Op, MAXIT, TOL, iter, v). nat (MAXIT - iter))") auto

text \<open>
  \<^verbatim>\<open>int cg::Solve(solver, o_x, o_r, tol, MAXIT, verbose)\<close>: the number of iterations,
  with the variables as the loop left them.
\<close>

definition Solve ::
    "'a reductions \<Rightarrow> 'a operator_t \<Rightarrow> 'a cg_t \<Rightarrow> 'a vec \<Rightarrow> 'a vec \<Rightarrow> 'a \<Rightarrow> int
      \<Rightarrow> (int \<times> 'a::{zero,one,plus,minus,uminus,times,inverse,ord} cg_vars) option" where
  "Solve la Op s x r tol MAXIT =
     (case Solve_init la Op s x r tol of
        None \<Rightarrow> None
      | Some (TOL, v) \<Rightarrow> cg_loop la Op MAXIT TOL 0 v)"

text \<open>
  Two operators for evaluating the solver. The identity copies the input to the
  output. The diagonal matrix \<open>d\<close> writes \<open>d\<^sub>i \<cdot> q\<^sub>i\<close> to the entries it has a
  coefficient for and leaves the other entries of the output as they are.
\<close>

definition identity_operator :: "'a operator_t" where
  "identity_operator q Aq = (q, q)"

definition diag_operator :: "'a::times vec \<Rightarrow> 'a operator_t" where
  "diag_operator d q Aq =
     (q, map (\<lambda>i. if i < length d \<and> i < length q then d ! i * q ! i else Aq ! i) [0..<length Aq])"

text \<open>
  A solver for two unknowns and one halo entry, the matrix \<open>diag(1, 64)\<close>, which is
  symmetric and positive definite, and a solver for one unknown.
\<close>

definition example_cg :: "dfloat cg_t" where
  "example_cg = \<lparr> N = 2, Nhalo = 1, o_p = [0, 0, 0], o_Ap = [0, 0, 0] \<rparr>"

definition example_cg1 :: "dfloat cg_t" where
  "example_cg1 = \<lparr> N = 1, Nhalo = 0, o_p = [0], o_Ap = [0] \<rparr>"

text \<open>
  The run of \<^verbatim>\<open>Solve\<close> for \<open>diag(1, 64)\<close>, the initial guess zero and the right-hand
  side \<open>(8, 1)\<close>, with a halo entry in every vector: the variables after the
  preparations, after the first and after the second iteration.
\<close>

definition example_vars0 :: "dfloat cg_vars" where
  "example_vars0 =
     \<lparr> rdotr = 65, rdotr1 = 0, rdotr2 = 0, alpha = 0, beta = 0, pAp = 0,
       o_x = [0, 0, 7], o_r = [8, 1, 5], self = example_cg \<rparr>"

definition example_vars1 :: "dfloat cg_vars" where
  "example_vars1 =
     \<lparr> rdotr = 257985 / 256, rdotr1 = 65, rdotr2 = 0, alpha = 65 / 128, beta = 0, pAp = 128,
       o_x = [65 / 16, 65 / 128, 7], o_r = [63 / 16, - 63 / 2, 5],
       self = \<lparr> N = 2, Nhalo = 1, o_p = [8, 1, 0], o_Ap = [8, 64, 0] \<rparr> \<rparr>"

definition example_vars2 :: "dfloat cg_vars" where
  "example_vars2 =
     \<lparr> rdotr = 0, rdotr1 = 257985 / 256, rdotr2 = 65, alpha = 2 / 65, beta = 3969 / 256,
       pAp = 16769025 / 512,
       o_x = [8, 1 / 64, 7], o_r = [0, 0, 5],
       self = \<lparr> N = 2, Nhalo = 1, o_p = [4095 / 32, - 4095 / 256, 0],
                o_Ap = [4095 / 32, - 4095 / 4, 0] \<rparr> \<rparr>"

text \<open>
  The variables after the preparations for one unknown, the identity, the initial guess
  zero and the right-hand side \<open>b\<close>.
\<close>

definition example_vars_small :: "dfloat \<Rightarrow> dfloat cg_vars" where
  "example_vars_small b =
     \<lparr> rdotr = b * b, rdotr1 = 0, rdotr2 = 0, alpha = 0, beta = 0, pAp = 0,
       o_x = [0], o_r = [b], self = example_cg1 \<rparr>"

text \<open>
  Two sets of variables agree beyond index \<open>k\<close>: the sizes are the same and the
  caller's vectors and the scratch vectors have the same entries from \<open>k\<close> on.
\<close>

definition same_halo :: "nat \<Rightarrow> 'a cg_vars \<Rightarrow> 'a cg_vars \<Rightarrow> bool" where
  "same_halo k v v' \<longleftrightarrow>
     N (self v') = N (self v) \<and> Nhalo (self v') = Nhalo (self v)
     \<and> drop k (o_x v') = drop k (o_x v) \<and> drop k (o_r v') = drop k (o_r v)
     \<and> drop k (o_p (self v')) = drop k (o_p (self v))
     \<and> drop k (o_Ap (self v')) = drop k (o_Ap (self v))"

text \<open>
  The vectors are long enough for a solver of size \<open>N\<close>: the caller's \<open>x\<close> and \<open>r\<close>
  and the scratch vector \<open>p\<close> have at least \<open>N\<close> entries.
\<close>

definition fits :: "'a cg_t \<Rightarrow> 'a cg_vars \<Rightarrow> bool" where
  "fits s v \<longleftrightarrow>
     N (self v) = N s \<and> len (N s) \<le> length (o_x v) \<and> len (N s) \<le> length (o_r v)
     \<and> len (N s) \<le> length (o_p (self v))"

text \<open>
  The four vectors an iteration works on have at least \<open>n\<close> entries.
\<close>

definition sized :: "nat \<Rightarrow> 'a cg_vars \<Rightarrow> bool" where
  "sized n v \<longleftrightarrow>
     n \<le> length (o_x v) \<and> n \<le> length (o_r v)
     \<and> n \<le> length (o_p (self v)) \<and> n \<le> length (o_Ap (self v))"

text \<open>
  The run of \<^verbatim>\<open>Solve\<close> with the rounded norm for the identity, the initial guess zero
  and the right-hand side \<open>(1, 1)\<close>: the norm is \<open>3 / 2\<close> for \<open>\<surd>2\<close>, so \<open>rdotr\<close>
  is \<open>9 / 4\<close> where the inner product is 2. The variables after the preparations,
  after the first and after the second iteration.
\<close>

definition rounded_vars0 :: "dfloat cg_vars" where
  "rounded_vars0 =
     \<lparr> rdotr = 9 / 4, rdotr1 = 0, rdotr2 = 0, alpha = 0, beta = 0, pAp = 0,
       o_x = [0, 0, 0], o_r = [1, 1, 0], self = example_cg \<rparr>"

definition rounded_vars1 :: "dfloat cg_vars" where
  "rounded_vars1 =
     \<lparr> rdotr = 1 / 32, rdotr1 = 9 / 4, rdotr2 = 0, alpha = 9 / 8, beta = 0, pAp = 2,
       o_x = [9 / 8, 9 / 8, 0], o_r = [- (1 / 8), - (1 / 8), 0],
       self = \<lparr> N = 2, Nhalo = 1, o_p = [1, 1, 0], o_Ap = [1, 1, 0] \<rparr> \<rparr>"

definition rounded_vars2 :: "dfloat cg_vars" where
  "rounded_vars2 =
     \<lparr> rdotr = 1 / 2048, rdotr1 = 1 / 32, rdotr2 = 9 / 4, alpha = 81 / 64, beta = 1 / 72,
       pAp = 2 / 81,
       o_x = [63 / 64, 63 / 64, 0], o_r = [1 / 64, 1 / 64, 0],
       self = \<lparr> N = 2, Nhalo = 1, o_p = [- (1 / 9), - (1 / 9), 0],
                o_Ap = [- (1 / 9), - (1 / 9), 0] \<rparr> \<rparr>"

section \<open>An element type with infinities and NaN\<close>

text \<open>
  An element type other than the real numbers, to run the solver where a result
  overflows or is undefined: the real numbers, with every result of magnitude \<open>2\<^sup>1\<^sup>0\<^sup>2\<^sup>4\<close>
  or more replaced by an infinity of its sign, and NaN for the operations that have no
  value (\<open>0 / 0\<close>, \<open>\<infinity> - \<infinity>\<close>, \<open>0 \<cdot> \<infinity>\<close>, \<open>\<infinity> / \<infinity>\<close>, the root of a negative number). An
  operation on NaN gives NaN and every comparison with NaN is false. A nonzero number
  divided by zero is an infinity. These are the special values of floating-point
  arithmetic and their rules; the rounding of floating-point arithmetic is not part of
  this type.
\<close>

datatype efloat = Finite real | PInf | MInf | NaN

definition overflow :: "real \<Rightarrow> efloat" where
  "overflow a = (if 2 ^ 1024 \<le> a then PInf else if a \<le> - (2 ^ 1024) then MInf else Finite a)"

fun efloat_neg :: "efloat \<Rightarrow> efloat" where
  "efloat_neg (Finite a) = Finite (- a)"
| "efloat_neg PInf = MInf"
| "efloat_neg MInf = PInf"
| "efloat_neg NaN = NaN"

fun efloat_add :: "efloat \<Rightarrow> efloat \<Rightarrow> efloat" where
  "efloat_add (Finite a) (Finite b) = overflow (a + b)"
| "efloat_add NaN _ = NaN"
| "efloat_add _ NaN = NaN"
| "efloat_add PInf MInf = NaN"
| "efloat_add MInf PInf = NaN"
| "efloat_add PInf _ = PInf"
| "efloat_add _ PInf = PInf"
| "efloat_add MInf _ = MInf"
| "efloat_add _ MInf = MInf"

fun efloat_mul :: "efloat \<Rightarrow> efloat \<Rightarrow> efloat" where
  "efloat_mul (Finite a) (Finite b) = overflow (a * b)"
| "efloat_mul NaN _ = NaN"
| "efloat_mul _ NaN = NaN"
| "efloat_mul PInf (Finite b) = (if b = 0 then NaN else if 0 < b then PInf else MInf)"
| "efloat_mul MInf (Finite b) = (if b = 0 then NaN else if 0 < b then MInf else PInf)"
| "efloat_mul (Finite a) PInf = (if a = 0 then NaN else if 0 < a then PInf else MInf)"
| "efloat_mul (Finite a) MInf = (if a = 0 then NaN else if 0 < a then MInf else PInf)"
| "efloat_mul PInf PInf = PInf"
| "efloat_mul PInf MInf = MInf"
| "efloat_mul MInf PInf = MInf"
| "efloat_mul MInf MInf = PInf"

fun efloat_div :: "efloat \<Rightarrow> efloat \<Rightarrow> efloat" where
  "efloat_div (Finite a) (Finite b) =
     (if b = 0 then (if a = 0 then NaN else if 0 < a then PInf else MInf)
      else overflow (a / b))"
| "efloat_div NaN _ = NaN"
| "efloat_div _ NaN = NaN"
| "efloat_div (Finite a) PInf = Finite 0"
| "efloat_div (Finite a) MInf = Finite 0"
| "efloat_div PInf (Finite b) = (if 0 \<le> b then PInf else MInf)"
| "efloat_div MInf (Finite b) = (if 0 \<le> b then MInf else PInf)"
| "efloat_div PInf PInf = NaN"
| "efloat_div PInf MInf = NaN"
| "efloat_div MInf PInf = NaN"
| "efloat_div MInf MInf = NaN"

fun efloat_le :: "efloat \<Rightarrow> efloat \<Rightarrow> bool" where
  "efloat_le (Finite a) (Finite b) \<longleftrightarrow> a \<le> b"
| "efloat_le NaN _ \<longleftrightarrow> False"
| "efloat_le _ NaN \<longleftrightarrow> False"
| "efloat_le MInf _ \<longleftrightarrow> True"
| "efloat_le _ PInf \<longleftrightarrow> True"
| "efloat_le PInf _ \<longleftrightarrow> False"
| "efloat_le _ MInf \<longleftrightarrow> False"

fun efloat_less :: "efloat \<Rightarrow> efloat \<Rightarrow> bool" where
  "efloat_less (Finite a) (Finite b) \<longleftrightarrow> a < b"
| "efloat_less NaN _ \<longleftrightarrow> False"
| "efloat_less _ NaN \<longleftrightarrow> False"
| "efloat_less PInf _ \<longleftrightarrow> False"
| "efloat_less _ MInf \<longleftrightarrow> False"
| "efloat_less MInf _ \<longleftrightarrow> True"
| "efloat_less _ PInf \<longleftrightarrow> True"

fun efloat_sqrt :: "efloat \<Rightarrow> efloat" where
  "efloat_sqrt (Finite a) = (if a < 0 then NaN else Finite (sqrt a))"
| "efloat_sqrt PInf = PInf"
| "efloat_sqrt MInf = NaN"
| "efloat_sqrt NaN = NaN"

instantiation efloat :: "{zero,one,plus,minus,uminus,times,inverse,ord}"
begin

definition zero_efloat :: efloat where
  "0 = Finite 0"

definition one_efloat :: efloat where
  "1 = Finite 1"

definition uminus_efloat :: "efloat \<Rightarrow> efloat" where
  "- a = efloat_neg a"

definition plus_efloat :: "efloat \<Rightarrow> efloat \<Rightarrow> efloat" where
  "a + b = efloat_add a b"

definition minus_efloat :: "efloat \<Rightarrow> efloat \<Rightarrow> efloat" where
  "a - b = efloat_add a (efloat_neg b)"

definition times_efloat :: "efloat \<Rightarrow> efloat \<Rightarrow> efloat" where
  "a * b = efloat_mul a b"

definition divide_efloat :: "efloat \<Rightarrow> efloat \<Rightarrow> efloat" where
  "divide a b = efloat_div a b"

definition inverse_efloat :: "efloat \<Rightarrow> efloat" where
  "inverse a = efloat_div (Finite 1) a"

definition less_eq_efloat :: "efloat \<Rightarrow> efloat \<Rightarrow> bool" where
  "a \<le> b \<longleftrightarrow> efloat_le a b"

definition less_efloat :: "efloat \<Rightarrow> efloat \<Rightarrow> bool" where
  "a < b \<longleftrightarrow> efloat_less a b"

instance ..

end

text \<open>The reductions of one process in this arithmetic.\<close>

definition efloat_rank :: "efloat reductions" where
  "efloat_rank =
     \<lparr> norm2 = (\<lambda>n X. efloat_sqrt (sumsq (take (len n) X))),
       innerProd = (\<lambda>n X Y. foldr (\<lambda>(v, w) s. v * w + s)
                              (zip (take (len n) X) (take (len n) Y)) 0),
       Allreduce_sum = (\<lambda>v. v) \<rparr>"

text \<open>
  A solver for one unknown and the run of \<^verbatim>\<open>Solve\<close> for the identity, the initial guess
  zero and the right-hand side \<open>2\<^sup>6\<^sup>0\<^sup>0\<close>, whose square overflows: the variables after the
  preparations.
\<close>

definition efloat_cg1 :: "efloat cg_t" where
  "efloat_cg1 = \<lparr> N = 1, Nhalo = 0, o_p = [Finite 0], o_Ap = [Finite 0] \<rparr>"

definition overflow_vars :: "efloat cg_vars" where
  "overflow_vars =
     \<lparr> rdotr = PInf, rdotr1 = Finite 0, rdotr2 = Finite 0, alpha = Finite 0, beta = Finite 0,
       pAp = Finite 0, o_x = [Finite 0], o_r = [Finite (2 ^ 600)], self = efloat_cg1 \<rparr>"

text \<open>
  A solver for two unknowns and the run of \<^verbatim>\<open>Solve\<close> for the zero matrix, the initial
  guess zero and the right-hand side \<open>(3, 4)\<close>, where \<open>pAp\<close> is zero: the variables after
  the preparations, after the first and after the second iteration.
\<close>

definition efloat_cg2 :: "efloat cg_t" where
  "efloat_cg2 = \<lparr> N = 2, Nhalo = 0, o_p = [Finite 0, Finite 0], o_Ap = [Finite 0, Finite 0] \<rparr>"

definition zero_vars0 :: "efloat cg_vars" where
  "zero_vars0 =
     \<lparr> rdotr = Finite 25, rdotr1 = Finite 0, rdotr2 = Finite 0, alpha = Finite 0, beta = Finite 0,
       pAp = Finite 0, o_x = [Finite 0, Finite 0], o_r = [Finite 3, Finite 4],
       self = efloat_cg2 \<rparr>"

definition zero_vars1 :: "efloat cg_vars" where
  "zero_vars1 =
     \<lparr> rdotr = NaN, rdotr1 = Finite 25, rdotr2 = Finite 0, alpha = PInf, beta = Finite 0,
       pAp = Finite 0, o_x = [PInf, PInf], o_r = [NaN, NaN],
       self = \<lparr> N = 2, Nhalo = 0, o_p = [Finite 3, Finite 4],
                o_Ap = [Finite 0, Finite 0] \<rparr> \<rparr>"

definition zero_vars2 :: "efloat cg_vars" where
  "zero_vars2 =
     \<lparr> rdotr = NaN, rdotr1 = NaN, rdotr2 = Finite 25, alpha = NaN, beta = NaN,
       pAp = NaN, o_x = [NaN, NaN], o_r = [NaN, NaN],
       self = \<lparr> N = 2, Nhalo = 0, o_p = [NaN, NaN], o_Ap = [NaN, NaN] \<rparr> \<rparr>"

text \<open>
  The solver object the run above leaves, used again: the run of \<^verbatim>\<open>Solve\<close> for the
  identity, the initial guess zero and the right-hand side \<open>(3, 4)\<close> with the scratch
  vector \<open>p\<close> holding NaN. The variables after the preparations and after the first
  iteration.
\<close>

definition stale_vars0 :: "efloat cg_vars" where
  "stale_vars0 =
     \<lparr> rdotr = Finite 25, rdotr1 = Finite 0, rdotr2 = Finite 0, alpha = Finite 0, beta = Finite 0,
       pAp = Finite 0, o_x = [Finite 0, Finite 0], o_r = [Finite 3, Finite 4],
       self = \<lparr> N = 2, Nhalo = 0, o_p = [NaN, NaN], o_Ap = [Finite 0, Finite 0] \<rparr> \<rparr>"

definition stale_vars1 :: "efloat cg_vars" where
  "stale_vars1 =
     \<lparr> rdotr = NaN, rdotr1 = Finite 25, rdotr2 = Finite 0, alpha = NaN, beta = Finite 0,
       pAp = NaN, o_x = [NaN, NaN], o_r = [NaN, NaN],
       self = \<lparr> N = 2, Nhalo = 0, o_p = [NaN, NaN], o_Ap = [NaN, NaN] \<rparr> \<rparr>"
section \<open>The order in time of the fused update (cg::UpdateCG, lines 143 to 156)\<close>

text \<open>
  The device queue belongs to the execution context, an external collaborator. Its
  discipline is the one the spec states for it: operations issued to the same queue
  execute in issue order; the host issues a kernel launch or an asynchronous copy
  without waiting for it; \<^verbatim>\<open>tagStream\<close> marks the current end of the queue, and
  \<^verbatim>\<open>waitFor(tag)\<close> returns once everything issued before the tag has completed.

  The four device operations of \<^verbatim>\<open>UpdateCG\<close>: \<^verbatim>\<open>setKernel\<close> on the accumulator, the
  kernel \<^verbatim>\<open>updateCGKernel_r\<close>, the copy of the accumulator to the host flagged
  \<^verbatim>\<open>async: true\<close>, and \<^verbatim>\<open>axpy(N, alpha, o_p, 1.0, o_x)\<close>.
\<close>

datatype dev_op = SetAccumulator | ResidualKernel | CopyAccumulator | SolutionUpdate

datatype host_cmd = Issue dev_op | TagStream | WaitFor | Allreduce

text \<open>The host's commands in the order of the source, lines 143, 144, 145, 147, 150, 152, 156.\<close>

definition UpdateCG_host :: "host_cmd list" where
  "UpdateCG_host =
     [Issue SetAccumulator, Issue ResidualKernel, Issue CopyAccumulator, TagStream,
      Issue SolutionUpdate, WaitFor, Allreduce]"

text \<open>
  A moment of the execution: the host commands still to run, the operations issued so
  far in issue order, how many of them have completed (a prefix, the queue being in
  order), the position the tag recorded, and, once the host has entered the reduction,
  the operations that were outstanding at that moment.
\<close>

record exec =
  todo :: "host_cmd list"
  issued :: "dev_op list"
  completed :: nat
  tag :: nat
  reduced_with :: "dev_op list option"

definition outstanding :: "exec \<Rightarrow> dev_op list" where
  "outstanding c = drop (completed c) (issued c)"

definition exec_start :: exec where
  "exec_start =
     \<lparr> todo = UpdateCG_host, issued = [], completed = 0, tag = 0, reduced_with = None \<rparr>"

text \<open>
  Either the device completes its oldest outstanding operation, or the host runs its
  next command; \<^verbatim>\<open>waitFor\<close> can only run when the tagged prefix has completed. A step
  that cannot happen is \<open>None\<close>.
\<close>

datatype actor = Host | Device

fun host_step :: "host_cmd \<Rightarrow> host_cmd list \<Rightarrow> exec \<Rightarrow> exec option" where
  "host_step (Issue op) rest c = Some (c \<lparr> todo := rest, issued := issued c @ [op] \<rparr>)"
| "host_step TagStream rest c = Some (c \<lparr> todo := rest, tag := length (issued c) \<rparr>)"
| "host_step WaitFor rest c = (if tag c \<le> completed c then Some (c \<lparr> todo := rest \<rparr>) else None)"
| "host_step Allreduce rest c = Some (c \<lparr> todo := rest, reduced_with := Some (outstanding c) \<rparr>)"

fun step :: "actor \<Rightarrow> exec \<Rightarrow> exec option" where
  "step Device c =
     (if completed c < length (issued c) then Some (c \<lparr> completed := Suc (completed c) \<rparr>)
      else None)"
| "step Host c = (case todo c of [] \<Rightarrow> None | cmd # rest \<Rightarrow> host_step cmd rest c)"

fun run :: "actor list \<Rightarrow> exec \<Rightarrow> exec option" where
  "run [] c = Some c"
| "run (a # as) c = (case step a c of None \<Rightarrow> None | Some c' \<Rightarrow> run as c')"

text \<open>
  What holds at every moment of an execution of \<^verbatim>\<open>UpdateCG\<close>: the host is at one of the
  eight points of its program with the operations of the commands it has run issued;
  once the tag is taken it is 3; once \<^verbatim>\<open>waitFor\<close> has returned, three operations have
  completed; and the reduction, once entered, found nothing outstanding but possibly
  the solution update.
\<close>

definition issued_by :: "host_cmd list \<Rightarrow> dev_op list" where
  "issued_by cmds = concat (map (\<lambda>cmd. case cmd of Issue op \<Rightarrow> [op] | _ \<Rightarrow> []) cmds)"

definition exec_inv :: "exec \<Rightarrow> bool" where
  "exec_inv c \<longleftrightarrow>
     (\<exists>k \<le> 7. todo c = drop k UpdateCG_host \<and> issued c = issued_by (take k UpdateCG_host)
        \<and> (4 \<le> k \<longrightarrow> tag c = 3) \<and> (6 \<le> k \<longrightarrow> 3 \<le> completed c)
        \<and> (k < 7 \<longrightarrow> reduced_with c = None)
        \<and> (k = 7 \<longrightarrow> reduced_with c = Some [] \<or> reduced_with c = Some [SolutionUpdate]))
     \<and> completed c \<le> length (issued c)"

section \<open>Facts about the machine integers\<close>

lemma sint_bounds32: "- 2147483648 \<le> sint (a :: 32 word) \<and> sint a < 2147483648"
  using sint_ge [of a] sint_lt [of a] by simp

lemma sint_word_of_int32:
  "- 2147483648 \<le> k \<Longrightarrow> k < 2147483648 \<Longrightarrow> sint (word_of_int k :: 32 word) = k"
  by (simp add: sint_sbintrunc' signed_take_bit_int_eq_self_iff)

lemma int_div_le_self: "0 \<le> (a::int) \<Longrightarrow> 0 < b \<Longrightarrow> a div b \<le> a"
  using zdiv_mono2 [of a 1 b] by simp

lemma sint_c_div_pos:
  assumes "0 \<le> sint a" "0 < sint b"
  shows "sint (c_div a b) = sint a div sint b"
proof -
  have eq: "sint a sdiv sint b = sint a div sint b"
    using assms by (simp add: signed_divide_int_def sgn_if)
  have lo: "0 \<le> sint a div sint b"
    using assms by (simp add: pos_imp_zdiv_nonneg_iff)
  have hi: "sint a div sint b \<le> sint a"
    using assms by (rule int_div_le_self)
  have "sint a div sint b < 2147483648"
    using hi sint_bounds32 [of a] by linarith
  moreover have "- 2147483648 \<le> sint a div sint b"
    using lo by linarith
  ultimately show ?thesis
    unfolding c_div_def eq by (rule sint_word_of_int32 [rotated])
qed

lemma sint_add32:
  "- 2147483648 \<le> sint (a :: 32 word) + sint b \<Longrightarrow> sint a + sint b < 2147483648
    \<Longrightarrow> sint (a + b) = sint a + sint b"
  by (simp add: sint_word_add signed_take_bit_int_eq_self_iff)

lemma sint_Nblocks_arg:
  assumes "0 \<le> sint n" "sint n \<le> 2147482624"
  shows "sint (n + CG_BLOCKSIZE - 1) = sint n + 1023"
proof -
  have "sint (1023 + n) = sint (1023 :: 32 word) + sint n"
    using assms by (intro sint_add32) auto
  then show ?thesis by (simp add: CG_BLOCKSIZE_def)
qed

lemma sint_Nblocks_div:
  assumes "0 \<le> sint n" "sint n \<le> 2147482624"
  shows "sint (c_div (n + CG_BLOCKSIZE - 1) CG_BLOCKSIZE) = (sint n + 1023) div 1024"
proof -
  have "0 \<le> sint (n + CG_BLOCKSIZE - 1)"
    using assms by (simp add: sint_Nblocks_arg)
  moreover have "0 < sint CG_BLOCKSIZE"
    by (simp add: CG_BLOCKSIZE_def)
  ultimately have "sint (c_div (n + CG_BLOCKSIZE - 1) CG_BLOCKSIZE)
      = sint (n + CG_BLOCKSIZE - 1) div sint CG_BLOCKSIZE"
    by (rule sint_c_div_pos)
  also have "\<dots> = (sint n + 1023) div 1024"
    using assms by (simp add: sint_Nblocks_arg) (simp add: CG_BLOCKSIZE_def)
  finally show ?thesis .
qed

lemma ceiling_div_1024: "\<lceil>real_of_int k / 1024\<rceil> = (k + 1023) div 1024"
proof -
  have "- (- k div 1024) = (k + 1023) div 1024"
    by linarith
  then show ?thesis
    using ceiling_divide_eq_div [of k 1024] by simp
qed

lemma sint_c_div_2: "0 \<le> sint nl \<Longrightarrow> sint (c_div nl 2) = sint nl div 2"
  using sint_c_div_pos [of nl 2] by simp

lemma sint_succ32:
  "0 \<le> sint (nl :: 32 word) \<Longrightarrow> sint nl < 2147483647 \<Longrightarrow> sint (nl + 1) = sint nl + 1"
  using sint_add32 [of nl 1] by simp

lemma unat_scast_times4:
  fixes w :: "32 word"
  assumes "0 \<le> sint w"
  shows "unat ((scast w :: 64 word) * 4) = nat (4 * sint w)"
proof -
  have b: "sint w < 2147483648"
    using sint_bounds32 [of w] by simp
  have "uint (scast w :: 64 word) = sint w mod 2 ^ LENGTH(64)"
    by (simp only: scast_eq uint_word_of_int)
  also have "\<dots> = sint w"
    using b assms by simp
  finally have u: "uint (scast w :: 64 word) = sint w" .
  have "uint ((scast w :: 64 word) * 4)
      = (uint (scast w :: 64 word) * uint (4 :: 64 word)) mod 2 ^ LENGTH(64)"
    by (simp only: uint_word_ariths)
  also have "\<dots> = 4 * sint w"
    using b assms by (simp add: u)
  finally show ?thesis by (metis nat_uint_eq)
qed

lemma half_up_int: "(k + 1) div 2 = k - k div 2" for k :: int
  by linarith

lemma half_up_nat: "0 \<le> (k::int) \<Longrightarrow> nat ((k + 1) div 2) = nat k - nat k div 2"
proof -
  assume k: "0 \<le> k"
  have "nat k div 2 = nat (k div 2)"
    using k by (simp add: nat_div_distrib)
  moreover have "nat (k - k div 2) = nat k - nat (k div 2)"
    using k by (simp add: nat_diff_distrib pos_imp_zdiv_nonneg_iff)
  ultimately show ?thesis by (simp add: half_up_int)
qed

lemma len_half:
  assumes "0 \<le> sint nl"
  shows "len (c_div nl 2) = len nl div 2"
  using assms by (simp add: len_def sint_c_div_2 nat_div_distrib)

lemma sint_second_half:
  assumes "0 \<le> sint nl" "sint nl < 2147483647"
  shows "sint (c_div (nl + 1) 2) = sint nl - sint nl div 2"
proof -
  have "sint (nl + 1) = sint nl + 1"
    using assms by (rule sint_succ32)
  moreover have "0 \<le> sint (nl + 1)"
    using assms calculation by simp
  ultimately have "sint (c_div (nl + 1) 2) = (sint nl + 1) div 2"
    by (simp add: sint_c_div_2)
  then show ?thesis by (simp only: half_up_int)
qed

lemma len_second_half:
  assumes "0 \<le> sint nl" "sint nl < 2147483647"
  shows "len (c_div (nl + 1) 2) = len nl - len nl div 2"
proof -
  have "sint (c_div (nl + 1) 2) = (sint nl + 1) div 2"
    using sint_second_half [OF assms] by (simp only: half_up_int)
  then show ?thesis
    using assms(1) by (simp only: len_def half_up_nat)
qed

lemma sint_UpdateCG_Nblocks:
  assumes "0 \<le> sint n" and "sint n \<le> 2147482624"
  shows "sint (UpdateCG_Nblocks n) = min ((sint n + 1023) div 1024) 1024"
  unfolding UpdateCG_Nblocks_def Let_def
  using sint_Nblocks_div [OF assms] by (simp add: CG_BLOCKSIZE_def min_def)

lemma UpdateCG_Nblocks_positive:
  assumes "0 < sint n" and "sint n \<le> 2147482624"
  shows "0 < sint (UpdateCG_Nblocks n)"
proof -
  have "1 \<le> (sint n + 1023) div 1024"
    using assms(1) by linarith
  then show ?thesis
    using sint_UpdateCG_Nblocks [of n] assms by simp
qed

section \<open>Facts about the local operator\<close>

lemma second_half_offset_eq:
  assumes "0 \<le> sint nl"
  shows "second_half_offset nl div sizeof_dlong = nat (sint nl div 2)"
proof -
  have "0 \<le> sint (c_div nl 2)"
    using assms by (simp add: sint_c_div_2)
  then have "unat ((scast (c_div nl 2) :: 64 word) * 4) = nat (4 * sint (c_div nl 2))"
    by (rule unat_scast_times4)
  then show ?thesis
    using assms by (simp add: second_half_offset_def sizeof_dlong_def sint_c_div_2)
qed

lemma offset_half:
  assumes "0 \<le> sint nl"
  shows "second_half_offset nl div sizeof_dlong = len nl div 2"
  using assms by (simp add: second_half_offset_eq len_def nat_div_distrib)

text \<open>The function is the left fold of the launches over the dispatches it does not skip.\<close>

lemma LocalOperator_fold:
  "LocalOperator hb q a st =
     foldl (\<lambda>s l. launch_kernel hb (l_count l) (l_list l) q (o_AqL hb) s) st
       (filter (\<lambda>l. l_count l \<noteq> 0) (dispatches hb))"
  by (simp add: LocalOperator_def dispatches_def Let_def)

lemma launches_launch_kernel:
  "launches (launch_kernel hb c l q a st) = launches st @ [\<lparr> l_count = c, l_list = l \<rparr>]"
  by (simp add: launch_kernel_def)

lemma launches_foldl:
  "launches (foldl (\<lambda>s l. launch_kernel hb (l_count l) (l_list l) q a s) st ls) = launches st @ ls"
  by (induction ls arbitrary: st) (simp_all add: launches_launch_kernel)

lemma launches_LocalOperator:
  "launches (LocalOperator hb q a st) = launches st @ filter (\<lambda>l. l_count l \<noteq> 0) (dispatches hb)"
  by (simp add: LocalOperator_fold launches_foldl)

lemma dev_launch_kernel_other:
  "h \<noteq> a \<Longrightarrow> dev (launch_kernel hb c l q a st) h = dev st h"
  by (simp add: launch_kernel_def)

lemma dev_foldl_other:
  "h \<noteq> a \<Longrightarrow>
   dev (foldl (\<lambda>s l. launch_kernel hb (l_count l) (l_list l) q a s) st ls) h = dev st h"
  by (induction ls arbitrary: st) (simp_all add: dev_launch_kernel_other)

text \<open>
  Whatever buffer is passed as \<open>o_Aq\<close>, the run is the same, and no buffer but
  \<open>o_AqL\<close> changes.
\<close>

lemma LocalOperator_argument_unused:
  "LocalOperator hb q a st = LocalOperator hb q a' st"
  by (simp add: LocalOperator_fold)

lemma LocalOperator_writes_o_AqL_only:
  "h \<noteq> o_AqL hb \<Longrightarrow> dev (LocalOperator hb q a st) h = dev st h"
  by (simp add: LocalOperator_fold dev_foldl_other)

lemma launch_elements_zero: "l_count l = 0 \<Longrightarrow> launch_elements l = []"
  by (simp add: launch_elements_def len_def)

lemma concat_launch_elements_filter:
  "concat (map launch_elements (filter (\<lambda>l. l_count l \<noteq> 0) ls)) = concat (map launch_elements ls)"
  by (induction ls) (simp_all add: launch_elements_zero)

lemma dispatched_LocalOperator:
  "dispatched_elements (LocalOperator hb q a \<lparr> dev = d, launches = [] \<rparr>)
     = concat (map launch_elements (dispatches hb))"
  by (simp add: dispatched_elements_def launches_LocalOperator concat_launch_elements_filter)

lemma mset_take_mid_drop: "mset (take k xs @ ys @ drop k xs) = mset xs + mset ys"
proof -
  have "mset (take k xs) + mset (drop k xs) = mset xs"
    by (metis append_take_drop_id mset_append)
  then show ?thesis by (simp add: ac_simps)
qed

section \<open>Facts about the solver\<close>

declare cg_loop.simps [simp del]

lemma axpy_Some:
  assumes "axpy n a X b Y = Some Y'"
  shows "len n \<le> length X" and "len n \<le> length Y"
    and "Y' = map2 (\<lambda>x y. a * x + b * y) (take (len n) X) (take (len n) Y) @ drop (len n) Y"
  using assms by (auto simp add: axpy_def split: if_splits)

lemma axpy_frame:
  assumes "axpy n a X b Y = Some Y'"
  shows "drop (len n) Y' = drop (len n) Y \<and> length Y' = length Y"
  using axpy_Some [OF assms] by simp

lemma updateCGKernel_r_frame:
  assumes "updateCGKernel_r n nb Ap a r acc = Some (r', acc')"
  shows "drop (len n) r' = drop (len n) r \<and> length r' = length r"
  using assms by (auto simp add: updateCGKernel_r_def Let_def split: if_splits)

lemma UpdateCG_frame:
  assumes "UpdateCG la s a x r = Some (rd, x', r')"
  shows "drop (len (N s)) x' = drop (len (N s)) x \<and> length x' = length x
       \<and> drop (len (N s)) r' = drop (len (N s)) r \<and> length r' = length r"
  using assms
  by (auto simp add: UpdateCG_def Let_def split: option.splits prod.splits
      dest: axpy_frame updateCGKernel_r_frame)

lemma cg_iteration_frame:
  assumes it: "cg_iteration la Op i v = Some v'"
      and op: "\<forall>q a. drop (len (N (self v))) (fst (Op q a)) = drop (len (N (self v))) q
                   \<and> drop (len (N (self v))) (snd (Op q a)) = drop (len (N (self v))) a"
  shows "same_halo (len (N (self v))) v v'"
proof -
  let ?k = "len (N (self v))"
  let ?b = "if i = 0 then 0 else rdotr v / rdotr1 v"
  obtain p1 where p1: "axpy (N (self v)) 1 (o_r v) ?b (o_p (self v)) = Some p1"
    using it by (auto simp add: cg_iteration_def Let_def split: option.splits)
  obtain p2 Ap2 where O: "Op p1 (o_Ap (self v)) = (p2, Ap2)"
    by (cases "Op p1 (o_Ap (self v))")
  let ?s2 = "(self v) \<lparr> o_p := p2, o_Ap := Ap2 \<rparr>"
  obtain rd x' r' where U:
    "UpdateCG la ?s2 (rdotr v / innerProd la (N (self v)) p2 Ap2) (o_x v) (o_r v) = Some (rd, x', r')"
    and v': "self v' = ?s2" "o_x v' = x'" "o_r v' = r'"
    using it p1 O by (auto simp add: cg_iteration_def Let_def split: option.splits)
  have "drop ?k p1 = drop ?k (o_p (self v))"
    using axpy_frame [OF p1] by simp
  moreover have "drop ?k p2 = drop ?k p1" "drop ?k Ap2 = drop ?k (o_Ap (self v))"
    using op O by (metis fst_conv, metis snd_conv)
  moreover have "drop ?k x' = drop ?k (o_x v)" "drop ?k r' = drop ?k (o_r v)"
    using UpdateCG_frame [OF U] by simp_all
  ultimately show ?thesis
    by (simp add: same_halo_def v')
qed

lemma same_halo_refl: "same_halo k v v"
  by (simp add: same_halo_def)

lemma same_halo_trans: "same_halo k v v' \<Longrightarrow> same_halo k v' v'' \<Longrightarrow> same_halo k v v''"
  by (simp add: same_halo_def)

lemma cg_loop_frame:
  assumes "cg_loop la Op MAXIT TOL i v = Some (i', v')"
      and "\<forall>q a. drop (len (N (self v))) (fst (Op q a)) = drop (len (N (self v))) q
                   \<and> drop (len (N (self v))) (snd (Op q a)) = drop (len (N (self v))) a"
  shows "same_halo (len (N (self v))) v v'"
  using assms
proof (induction la Op MAXIT TOL i v rule: cg_loop.induct)
  case (1 la Op MAXIT TOL iter v)
  show ?case
  proof (cases "iter < MAXIT \<and> \<not> rdotr v \<le> TOL")
    case False
    then have "v' = v"
      using "1.prems"(1) by (auto simp add: cg_loop.simps [of la Op MAXIT TOL iter v] split: if_splits)
    then show ?thesis by (simp add: same_halo_refl)
  next
    case True
    then obtain v1 where s: "cg_iteration la Op iter v = Some v1"
      and l: "cg_loop la Op MAXIT TOL (iter + 1) v1 = Some (i', v')"
      using "1.prems"(1)
      by (auto simp add: cg_loop.simps [of la Op MAXIT TOL iter v] split: option.splits)
    have h1: "same_halo (len (N (self v))) v v1"
      using cg_iteration_frame [OF s "1.prems"(2)] .
    then have n: "N (self v1) = N (self v)"
      by (simp add: same_halo_def)
    have "same_halo (len (N (self v1))) v1 v'"
      using "1.IH" [OF _ _ s l] True "1.prems"(2) by (simp add: n)
    then have h2: "same_halo (len (N (self v))) v1 v'"
      by (simp add: n)
    show ?thesis
      using h1 h2 by (rule same_halo_trans)
  qed
qed

lemma Solve_init_Some:
  assumes "Solve_init la Op s x r tol = Some (TOL, v)"
  shows "axpy (N s) (- 1) (snd (Op x (o_Ap s))) 1 r = Some (o_r v)"
    and "rdotr v = norm2 la (N s) (o_r v) * norm2 la (N s) (o_r v)"
    and "TOL = mymax (tol * tol * rdotr v) (tol * tol)"
    and "o_x v = fst (Op x (o_Ap s))"
    and "self v = s \<lparr> o_Ap := snd (Op x (o_Ap s)) \<rparr>"
  using assms
  by (auto simp add: Solve_init_def Let_def split: prod.splits option.splits)

lemma mymax_eq_max: "mymax a b = max a (b::'a::linorder)"
  by (auto simp add: mymax_def max_def)

lemma cg_loop_exit: "rdotr w \<le> TOL \<Longrightarrow> cg_loop la Op MAXIT TOL i w = Some (i, w)"
  by (simp add: cg_loop.simps [of la Op MAXIT TOL i w])

lemma Solve_init_frame:
  assumes "Solve_init la Op s x r tol = Some (TOL, v)"
      and "\<forall>q a. drop (len (N s)) (fst (Op q a)) = drop (len (N s)) q
                   \<and> drop (len (N s)) (snd (Op q a)) = drop (len (N s)) a"
  shows "N (self v) = N s \<and> Nhalo (self v) = Nhalo s
       \<and> drop (len (N s)) (o_x v) = drop (len (N s)) x
       \<and> drop (len (N s)) (o_r v) = drop (len (N s)) r
       \<and> drop (len (N s)) (o_p (self v)) = drop (len (N s)) (o_p s)
       \<and> drop (len (N s)) (o_Ap (self v)) = drop (len (N s)) (o_Ap s)"
  using Solve_init_Some [OF assms(1)] assms(2) axpy_frame [of "N s" "- 1" "snd (Op x (o_Ap s))" 1 r "o_r v"]
  by simp

text \<open>
  The updates of \<^verbatim>\<open>Solve\<close> on entries where the operations involved are exact. The
  hypotheses name the operations and the entries; no law of arithmetic is used.
\<close>

lemma map2_replicate_right:
  "length xs = k \<Longrightarrow>
   map2 (\<lambda>x y. a * x + b * y) xs (replicate k z) = map (\<lambda>v. a * v + b * z) xs"
  by (induction xs arbitrary: k) auto

lemma map2_exact_left:
  "length ys = k \<Longrightarrow> \<forall>v\<in>set ys. a * 0 + b * v = v
     \<Longrightarrow> map2 (\<lambda>x y. a * x + b * y) (replicate k 0) ys = ys"
  by (induction ys arbitrary: k) auto

lemma map2_exact_right:
  "length xs = k \<Longrightarrow> \<forall>v\<in>set xs. a * v + b * 0 = v
     \<Longrightarrow> map2 (\<lambda>x y. a * x + b * y) xs (replicate k 0) = xs"
  by (induction xs arbitrary: k) auto

lemma map2_exact_both:
  "list_all2 (\<lambda>v w. a * v + b * w = v) xs ys \<Longrightarrow> map2 (\<lambda>x y. a * x + b * y) xs ys = xs"
  by (induction xs ys rule: list_all2_induct) simp_all

lemma map2_residual_exact:
  "length xs = k \<Longrightarrow> \<forall>v\<in>set xs. v - a * v = 0
     \<Longrightarrow> map2 (\<lambda>ri api. ri - a * api) xs xs = replicate k 0"
  by (induction xs arbitrary: k) auto

lemma sumsq_replicate_zero:
  "0 * 0 + 0 = (0::'a::{zero,plus,times}) \<Longrightarrow> sumsq (replicate k (0::'a)) = 0"
  by (induction k) (simp_all add: sumsq_def)

lemma updateCGKernel_r_Some:
  assumes "updateCGKernel_r n nb Ap a r acc = Some (r', acc')"
  shows "len n \<le> length r" and "len n \<le> length Ap"
    and "take (len n) r' = map2 (\<lambda>ri api. ri - a * api) (take (len n) r) (take (len n) Ap)"
    and "drop (len n) r' = drop (len n) r"
    and "acc' = acc + sumsq (take (len n) r')"
  using assms
  by (auto simp add: updateCGKernel_r_def Let_def sumsq_def split: if_splits)


lemma axpy_exact_left:
  assumes "len n \<le> length A" "take (len n) A = replicate (len n) 0" "len n \<le> length Y"
      and "\<forall>v\<in>set (take (len n) Y). a * 0 + b * v = v"
  shows "axpy n a A b Y = Some Y"
proof -
  have "map2 (\<lambda>x y. a * x + b * y) (take (len n) A) (take (len n) Y) = take (len n) Y"
    unfolding assms(2) by (rule map2_exact_left) (use assms(3,4) in simp_all)
  then show ?thesis
    using assms(1,3) by (simp only: axpy_def append_take_drop_id if_True simp_thms)
qed

lemma axpy_exact_right:
  assumes "len n \<le> length X" "len n \<le> length Y" "take (len n) Y = replicate (len n) 0"
      and "\<forall>v\<in>set (take (len n) X). a * v + b * 0 = v"
  shows "axpy n a X b Y = Some (take (len n) X @ drop (len n) Y)"
proof -
  have "map2 (\<lambda>x y. a * x + b * y) (take (len n) X) (take (len n) Y) = take (len n) X"
    unfolding assms(3) by (rule map2_exact_right) (use assms(1,4) in simp_all)
  then show ?thesis
    using assms(1,2) by (simp only: axpy_def if_True simp_thms)
qed

lemma axpy_exact_both:
  assumes "len n \<le> length X" "len n \<le> length Y"
      and "list_all2 (\<lambda>v w. a * v + b * w = v) (take (len n) X) (take (len n) Y)"
  shows "axpy n a X b Y = Some (take (len n) X @ drop (len n) Y)"
proof -
  have "map2 (\<lambda>x y. a * x + b * y) (take (len n) X) (take (len n) Y) = take (len n) X"
    using assms(3) by (rule map2_exact_both)
  then show ?thesis
    using assms(1,2) by (simp only: axpy_def if_True simp_thms)
qed

lemma updateCGKernel_r_exact:
  assumes "\<not> (0 < len n \<and> sint nb \<le> 0)" "len n \<le> length r" "len n \<le> length Ap"
      and "take (len n) Ap = take (len n) r"
      and "\<forall>v\<in>set (take (len n) r). v - a * v = 0"
      and "0 * 0 + 0 = (0::'a::{zero,plus,minus,times})"
  shows "updateCGKernel_r n nb Ap a r acc
           = Some (replicate (len n) (0::'a) @ drop (len n) r, acc + 0)"
proof -
  have m: "map2 (\<lambda>ri api. ri - a * api) (take (len n) r) (take (len n) Ap) = replicate (len n) 0"
    unfolding assms(4) by (rule map2_residual_exact) (use assms(2,5) in simp_all)
  show ?thesis
    unfolding updateCGKernel_r_def Let_def m
    using assms(1,2,3) by (simp add: sumsq_replicate_zero [OF assms(6)])
qed

text \<open>
  The solver returns: with vectors of at least \<open>N\<close> entries, \<open>N \<le> INT_MAX - 1023\<close> and
  an operator that keeps its buffers that long, \<^verbatim>\<open>Solve\<close> ends with a count between 0 and
  \<^verbatim>\<open>MAXIT\<close>.
\<close>

lemma axpy_returns:
  "len n \<le> length X \<Longrightarrow> len n \<le> length Y \<Longrightarrow> \<exists>Y'. axpy n a X b Y = Some Y'"
  by (simp add: axpy_def)

lemma Solve_init_returns:
  assumes "len (N s) \<le> length r" and "len (N s) \<le> length (snd (Op x (o_Ap s)))"
  shows "\<exists>TOL v. Solve_init la Op s x r tol = Some (TOL, v)"
proof -
  obtain x1 Ap1 where O: "Op x (o_Ap s) = (x1, Ap1)"
    by (cases "Op x (o_Ap s)")
  then have "len (N s) \<le> length Ap1"
    using assms(2) by simp
  then show ?thesis
    using assms(1) by (simp add: Solve_init_def O axpy_def Let_def)
qed

lemma UpdateCG_returns:
  assumes "sint (N s) \<le> 2147482624"
      and "len (N s) \<le> length x" "len (N s) \<le> length r"
      and "len (N s) \<le> length (o_p s)" "len (N s) \<le> length (o_Ap s)"
  shows "\<exists>rd x' r'. UpdateCG la s a x r = Some (rd, x', r')"
proof -
  have "\<not> (0 < len (N s) \<and> sint (UpdateCG_Nblocks (N s)) \<le> 0)"
    using UpdateCG_Nblocks_positive [of "N s"] assms(1) by (auto simp add: len_def)
  then show ?thesis
    using assms(2-)
    by (simp add: UpdateCG_def updateCGKernel_r_def axpy_def Let_def)
qed

lemma cg_iteration_returns:
  assumes rng: "sint (N s) \<le> 2147482624"
      and op: "\<forall>q a. len (N s) \<le> length q \<longrightarrow>
                 len (N s) \<le> length (fst (Op q a)) \<and> len (N s) \<le> length (snd (Op q a))"
      and f: "fits s v"
  shows "\<exists>v'. cg_iteration la Op i v = Some v' \<and> fits s v'"
proof -
  let ?b = "if i = 0 then 0 else rdotr v / rdotr1 v"
  have n: "N (self v) = N s" using f by (simp add: fits_def)
  obtain p1 where p1: "axpy (N s) 1 (o_r v) ?b (o_p (self v)) = Some p1"
    using f axpy_returns [of "N s" "o_r v" "o_p (self v)"] by (auto simp add: fits_def)
  have lp1: "len (N s) \<le> length p1"
    using axpy_frame [OF p1] f by (simp add: fits_def)
  obtain p2 Ap2 where O: "Op p1 (o_Ap (self v)) = (p2, Ap2)"
    by (cases "Op p1 (o_Ap (self v))")
  have l2: "len (N s) \<le> length p2" "len (N s) \<le> length Ap2"
    using op lp1 O by (metis fst_conv, metis snd_conv)
  let ?s2 = "(self v) \<lparr> o_p := p2, o_Ap := Ap2 \<rparr>"
  let ?a = "rdotr v / innerProd la (N s) p2 Ap2"
  obtain rd x' r' where U: "UpdateCG la ?s2 ?a (o_x v) (o_r v) = Some (rd, x', r')"
    using UpdateCG_returns [of ?s2 "o_x v" "o_r v" la ?a] rng f l2 n
    by (auto simp add: fits_def)
  have "len (N s) \<le> length x'" "len (N s) \<le> length r'"
    using UpdateCG_frame [OF U] f by (simp_all add: fits_def)
  then show ?thesis
    using p1 O U l2 n by (simp add: cg_iteration_def Let_def fits_def)
qed

lemma cg_loop_returns:
  assumes "sint (N s) \<le> 2147482624"
      and "\<forall>q a. len (N s) \<le> length q \<longrightarrow>
                 len (N s) \<le> length (fst (Op q a)) \<and> len (N s) \<le> length (snd (Op q a))"
      and "fits s v" and "i \<le> max MAXIT 0" and "0 \<le> i"
  shows "\<exists>i' v'. cg_loop la Op MAXIT TOL i v = Some (i', v') \<and> i \<le> i' \<and> i' \<le> max MAXIT 0"
  using assms
proof (induction la Op MAXIT TOL i v rule: cg_loop.induct)
  case (1 la Op MAXIT TOL iter v)
  show ?case
  proof (cases "iter < MAXIT \<and> \<not> rdotr v \<le> TOL")
    case False
    then show ?thesis
      using "1.prems"(4) by (auto simp add: cg_loop.simps [of la Op MAXIT TOL iter v])
  next
    case True
    obtain v1 where s: "cg_iteration la Op iter v = Some v1" and f1: "fits s v1"
      using cg_iteration_returns [OF "1.prems"(1,2,3)] by blast
    have "\<exists>i' v'. cg_loop la Op MAXIT TOL (iter + 1) v1 = Some (i', v')
            \<and> iter + 1 \<le> i' \<and> i' \<le> max MAXIT 0"
      using "1.IH" [OF _ _ s "1.prems"(1,2) f1] True "1.prems"(5) by simp
    then show ?thesis
      using True s by (auto simp add: cg_loop.simps [of la Op MAXIT TOL iter v])
  qed
qed

lemma Solve_returns:
  assumes rng: "sint (N s) \<le> 2147482624"
      and op: "\<forall>q a. len (N s) \<le> length q \<longrightarrow>
                 len (N s) \<le> length (fst (Op q a)) \<and> len (N s) \<le> length (snd (Op q a))"
      and len: "len (N s) \<le> length x" "len (N s) \<le> length r" "len (N s) \<le> length (o_p s)"
  shows "\<exists>it v. Solve la Op s x r tol MAXIT = Some (it, v) \<and> 0 \<le> it \<and> it \<le> max MAXIT 0"
proof -
  have a: "len (N s) \<le> length (snd (Op x (o_Ap s)))" "len (N s) \<le> length (fst (Op x (o_Ap s)))"
    using op len(1) by simp_all
  obtain TOL v0 where i: "Solve_init la Op s x r tol = Some (TOL, v0)"
    using Solve_init_returns [of s r Op x la tol] len(2) a(1) by blast
  have "len (N s) \<le> length (o_r v0)"
    using Solve_init_Some(1) [OF i] axpy_frame len(2) by fastforce
  then have "fits s v0"
    using Solve_init_Some(4,5) [OF i] a len by (simp add: fits_def)
  then show ?thesis
    using cg_loop_returns [OF rng op, of v0 0 MAXIT la TOL] i
    by (simp add: Solve_def)
qed

text \<open>
  An iteration runs when the vectors have the solver's size, \<open>N \<le> INT_MAX - 1023\<close>
  and the operator keeps buffers of that size so, and it leaves them that way.
\<close>

lemma cg_iteration_runs:
  assumes rng: "sint (N (self v)) \<le> 2147482624"
      and op: "\<forall>q a. len (N (self v)) \<le> length q \<and> len (N (self v)) \<le> length a \<longrightarrow>
                 len (N (self v)) \<le> length (fst (Op q a))
                 \<and> len (N (self v)) \<le> length (snd (Op q a))"
      and sz: "sized (len (N (self v))) v"
  shows "\<exists>v'. cg_iteration la Op i v = Some v' \<and> N (self v') = N (self v)
              \<and> sized (len (N (self v))) v'"
proof -
  let ?n = "len (N (self v))"
  let ?b = "if i = 0 then 0 else rdotr v / rdotr1 v"
  obtain p1 where p1: "axpy (N (self v)) 1 (o_r v) ?b (o_p (self v)) = Some p1"
    using sz axpy_returns [of "N (self v)" "o_r v" "o_p (self v)"] by (auto simp add: sized_def)
  have lp1: "?n \<le> length p1"
    using axpy_frame [OF p1] sz by (simp add: sized_def)
  obtain p2 Ap2 where O: "Op p1 (o_Ap (self v)) = (p2, Ap2)"
    by (cases "Op p1 (o_Ap (self v))")
  have "?n \<le> length (o_Ap (self v))"
    using sz by (simp add: sized_def)
  then have l2: "?n \<le> length p2" "?n \<le> length Ap2"
    using op lp1 O by (metis fst_conv, metis snd_conv)
  let ?s2 = "(self v) \<lparr> o_p := p2, o_Ap := Ap2 \<rparr>"
  let ?a = "rdotr v / innerProd la (N (self v)) p2 Ap2"
  obtain rd x' r' where U: "UpdateCG la ?s2 ?a (o_x v) (o_r v) = Some (rd, x', r')"
    using UpdateCG_returns [of ?s2 "o_x v" "o_r v" la ?a] rng sz l2
    by (auto simp add: sized_def)
  have "?n \<le> length x'" "?n \<le> length r'"
    using UpdateCG_frame [OF U] sz by (simp_all add: sized_def)
  then show ?thesis
    using p1 O U l2 by (simp add: cg_iteration_def Let_def sized_def)
qed


text \<open>
  So the loop and \<^verbatim>\<open>Solve\<close> return, with a count between 0 and \<^verbatim>\<open>MAXIT\<close>, also for
  an operator that writes into the buffer it is given, when the scratch vector \<open>Ap\<close>
  has the solver's size, as the constructor makes it. A negative size builds no solver.
\<close>

lemma cg_loop_runs:
  assumes "sint (N (self v)) \<le> 2147482624"
      and "\<forall>q a. len (N (self v)) \<le> length q \<and> len (N (self v)) \<le> length a \<longrightarrow>
                 len (N (self v)) \<le> length (fst (Op q a))
                 \<and> len (N (self v)) \<le> length (snd (Op q a))"
      and "sized (len (N (self v))) v" and "i \<le> max MAXIT 0" and "0 \<le> i"
  shows "\<exists>i' v'. cg_loop la Op MAXIT TOL i v = Some (i', v') \<and> i \<le> i' \<and> i' \<le> max MAXIT 0"
  using assms
proof (induction la Op MAXIT TOL i v rule: cg_loop.induct)
  case (1 la Op MAXIT TOL iter v)
  show ?case
  proof (cases "iter < MAXIT \<and> \<not> rdotr v \<le> TOL")
    case False
    then show ?thesis
      using "1.prems"(4) by (auto simp add: cg_loop.simps [of la Op MAXIT TOL iter v])
  next
    case True
    obtain v1 where s: "cg_iteration la Op iter v = Some v1" and n: "N (self v1) = N (self v)"
      and f1: "sized (len (N (self v))) v1"
      using cg_iteration_runs [OF "1.prems"(1,2,3)] by blast
    have "\<exists>i' v'. cg_loop la Op MAXIT TOL (iter + 1) v1 = Some (i', v')
            \<and> iter + 1 \<le> i' \<and> i' \<le> max MAXIT 0"
      using "1.IH" [OF _ _ s] True "1.prems"(1,2,5) f1 by (simp add: n)
    then show ?thesis
      using True s by (auto simp add: cg_loop.simps [of la Op MAXIT TOL iter v])
  qed
qed

lemma Solve_runs:
  assumes rng: "sint (N s) \<le> 2147482624"
      and op: "\<forall>q a. len (N s) \<le> length q \<and> len (N s) \<le> length a \<longrightarrow>
                 len (N s) \<le> length (fst (Op q a)) \<and> len (N s) \<le> length (snd (Op q a))"
      and len: "len (N s) \<le> length x" "len (N s) \<le> length r" "len (N s) \<le> length (o_p s)"
               "len (N s) \<le> length (o_Ap s)"
  shows "\<exists>it v. Solve la Op s x r tol MAXIT = Some (it, v) \<and> 0 \<le> it \<and> it \<le> max MAXIT 0"
proof -
  have a: "len (N s) \<le> length (snd (Op x (o_Ap s)))" "len (N s) \<le> length (fst (Op x (o_Ap s)))"
    using op len(1,4) by simp_all
  obtain TOL v0 where i: "Solve_init la Op s x r tol = Some (TOL, v0)"
    using Solve_init_returns [of s r Op x la tol] len(2) a(1) by blast
  have "len (N s) \<le> length (o_r v0)"
    using Solve_init_Some(1) [OF i] axpy_frame len(2) by fastforce
  then have "sized (len (N s)) v0" and "N (self v0) = N s"
    using Solve_init_Some(4,5) [OF i] a len by (simp_all add: sized_def)
  then show ?thesis
    using cg_loop_runs [of v0 Op 0 MAXIT la TOL] rng op i
    by (simp add: Solve_def)
qed

lemma cg_refuses_negative_size: "sint (n + h) < 0 \<Longrightarrow> cg n h = None"
  by (simp add: cg_def Let_def)

lemmas cg_eval_defs =
  single_rank_def diag_operator_def identity_operator_def axpy_def len_def sumsq_def dot_def
  Let_def mymax_def example_cg_def example_cg1_def UpdateCG_def updateCGKernel_r_def
  UpdateCG_Nblocks_def c_div_def CG_BLOCKSIZE_def signed_divide_int_def

lemma example_init:
  "Solve_init single_rank (diag_operator [1, 64]) example_cg [0, 0, 7] [8, 1, 5] (1 / 1024)
     = Some (65 / 1048576, example_vars0)"
  by (simp add: Solve_init_def example_vars0_def cg_eval_defs)

lemma example_iteration1:
  "cg_iteration single_rank (diag_operator [1, 64]) 0 example_vars0 = Some example_vars1"
  by (simp add: cg_iteration_def example_vars0_def example_vars1_def cg_eval_defs)

lemma example_iteration2:
  "cg_iteration single_rank (diag_operator [1, 64]) 1 example_vars1 = Some example_vars2"
  by (simp add: cg_iteration_def example_vars1_def example_vars2_def cg_eval_defs)

lemma example_loop:
  "cg_loop single_rank (diag_operator [1, 64]) 10 (65 / 1048576) 0 example_vars0
     = Some (2, example_vars2)"
proof -
  have "cg_loop single_rank (diag_operator [1, 64]) 10 (65 / 1048576) 2 example_vars2
          = Some (2, example_vars2)"
    by (rule cg_loop_exit) (simp add: example_vars2_def)
  then have "cg_loop single_rank (diag_operator [1, 64]) 10 (65 / 1048576) 1 example_vars1
          = Some (2, example_vars2)"
    by (simp add: cg_loop.simps [of _ _ _ _ 1] example_iteration2) (simp add: example_vars1_def)
  then show ?thesis
    by (simp add: cg_loop.simps [of _ _ _ _ 0] example_iteration1) (simp add: example_vars0_def)
qed

lemma example_solve:
  "Solve single_rank (diag_operator [1, 64]) example_cg [0, 0, 7] [8, 1, 5] (1 / 1024) 10
     = Some (2, example_vars2)"
  by (simp add: Solve_def example_init example_loop)

lemma example_small_init:
  "Solve_init single_rank identity_operator example_cg1 [0] [b] tol
     = Some (mymax (tol * tol * (b * b)) (tol * tol), example_vars_small b)"
  by (simp add: Solve_init_def example_vars_small_def single_rank_def identity_operator_def
      axpy_def len_def sumsq_def Let_def example_cg1_def)

lemma drop_diag_operator:
  "drop (length d) (snd (diag_operator d q a)) = drop (length d) a"
  by (rule nth_equalityI) (simp_all add: diag_operator_def)

lemma diag_operator_frame:
  "drop (length d) (fst (diag_operator d q a)) = drop (length d) q
   \<and> drop (length d) (snd (diag_operator d q a)) = drop (length d) a"
  using drop_diag_operator [of d q a] by (simp add: diag_operator_def)

text \<open>The run with the rounded norm.\<close>

lemma sqrt2_bounds: "5 / 4 \<le> sqrt 2" "sqrt 2 < 7 / 4"
proof -
  show "5 / 4 \<le> sqrt 2"
    by (rule real_le_rsqrt) (simp add: power2_eq_square)
  show "sqrt 2 < 7 / 4"
    by (rule real_less_lsqrt) (simp_all add: power2_eq_square)
qed

lemma floor_sqrt2: "\<lfloor>2 * sqrt 2 + 1 / 2\<rfloor> = 3"
  using sqrt2_bounds by (intro floor_unique) simp_all

lemma rounded_init:
  "Solve_init rounded_rank identity_operator example_cg [0, 0, 0] [1, 1, 0] (1 / 16)
     = Some (9 / 1024, rounded_vars0)"
  by (simp add: Solve_init_def rounded_vars0_def rounded_rank_def floor_sqrt2 cg_eval_defs)

lemma rounded_iteration1:
  "cg_iteration rounded_rank identity_operator 0 rounded_vars0 = Some rounded_vars1"
  by (simp add: cg_iteration_def rounded_vars0_def rounded_vars1_def rounded_rank_def cg_eval_defs)

lemma rounded_iteration2:
  "cg_iteration rounded_rank identity_operator 1 rounded_vars1 = Some rounded_vars2"
  by (simp add: cg_iteration_def rounded_vars1_def rounded_vars2_def rounded_rank_def cg_eval_defs)

lemma rounded_solve:
  "Solve rounded_rank identity_operator example_cg [0, 0, 0] [1, 1, 0] (1 / 16) 10
     = Some (2, rounded_vars2)"
proof -
  have "cg_loop rounded_rank identity_operator 10 (9 / 1024) 2 rounded_vars2
          = Some (2, rounded_vars2)"
    by (rule cg_loop_exit) (simp add: rounded_vars2_def)
  then have "cg_loop rounded_rank identity_operator 10 (9 / 1024) 1 rounded_vars1
          = Some (2, rounded_vars2)"
    by (simp add: cg_loop.simps [of _ _ _ _ 1] rounded_iteration2) (simp add: rounded_vars1_def)
  then have "cg_loop rounded_rank identity_operator 10 (9 / 1024) 0 rounded_vars0
          = Some (2, rounded_vars2)"
    by (simp add: cg_loop.simps [of _ _ _ _ 0] rounded_iteration1) (simp add: rounded_vars0_def)
  then show ?thesis
    by (simp add: Solve_def rounded_init)
qed

section \<open>Runs with infinities and NaN\<close>

lemmas efloat_eval_defs =
  efloat_rank_def diag_operator_def identity_operator_def axpy_def len_def sumsq_def
  Let_def mymax_def UpdateCG_def updateCGKernel_r_def
  UpdateCG_Nblocks_def c_div_def CG_BLOCKSIZE_def signed_divide_int_def
  zero_efloat_def one_efloat_def uminus_efloat_def plus_efloat_def minus_efloat_def
  times_efloat_def divide_efloat_def inverse_efloat_def less_eq_efloat_def less_efloat_def
  overflow_def
  efloat_cg1_def efloat_cg2_def

lemma overflow_init:
  "Solve_init efloat_rank identity_operator efloat_cg1 [Finite 0] [Finite (2 ^ 600)]
     (Finite (1 / 1024))
     = Some (PInf, overflow_vars)"
  by (simp add: Solve_init_def overflow_vars_def efloat_eval_defs)

lemma overflow_solve:
  "Solve efloat_rank identity_operator efloat_cg1 [Finite 0] [Finite (2 ^ 600)]
     (Finite (1 / 1024)) 10
     = Some (0, overflow_vars)"
  unfolding Solve_def overflow_init
  by (simp add: cg_loop_exit less_eq_efloat_def overflow_vars_def)

lemma zero_init:
  "Solve_init efloat_rank (diag_operator [Finite 0, Finite 0]) efloat_cg2 [Finite 0, Finite 0]
     [Finite 3, Finite 4] (Finite (1 / 1024))
     = Some (Finite (25 / 1048576), zero_vars0)"
  by (simp add: Solve_init_def zero_vars0_def efloat_eval_defs)

lemma zero_iteration1:
  "cg_iteration efloat_rank (diag_operator [Finite 0, Finite 0]) 0 zero_vars0 = Some zero_vars1"
  by (simp add: cg_iteration_def zero_vars0_def zero_vars1_def efloat_eval_defs)

lemma zero_iteration2:
  "cg_iteration efloat_rank (diag_operator [Finite 0, Finite 0]) 1 zero_vars1 = Some zero_vars2"
  by (simp add: cg_iteration_def zero_vars1_def zero_vars2_def efloat_eval_defs)

lemma zero_solve:
  "Solve efloat_rank (diag_operator [Finite 0, Finite 0]) efloat_cg2 [Finite 0, Finite 0]
     [Finite 3, Finite 4] (Finite (1 / 1024)) 2
     = Some (2, zero_vars2)"
proof -
  have "cg_loop efloat_rank (diag_operator [Finite 0, Finite 0]) 2 (Finite (25 / 1048576)) 2
          zero_vars2
          = Some (2, zero_vars2)"
    by (simp add: cg_loop.simps [of _ _ _ _ 2])
  then have "cg_loop efloat_rank (diag_operator [Finite 0, Finite 0]) 2 (Finite (25 / 1048576)) 1
          zero_vars1
          = Some (2, zero_vars2)"
    by (simp add: cg_loop.simps [of _ _ _ _ 1] zero_iteration2)
       (simp add: zero_vars1_def less_eq_efloat_def)
  then have "cg_loop efloat_rank (diag_operator [Finite 0, Finite 0]) 2 (Finite (25 / 1048576)) 0
          zero_vars0
          = Some (2, zero_vars2)"
    by (simp add: cg_loop.simps [of _ _ _ _ 0] zero_iteration1)
       (simp add: zero_vars0_def less_eq_efloat_def)
  then show ?thesis
    by (simp add: Solve_def zero_init)
qed

lemma stale_init:
  "Solve_init efloat_rank identity_operator (self zero_vars2) [Finite 0, Finite 0]
     [Finite 3, Finite 4] (Finite (1 / 1024))
     = Some (Finite (25 / 1048576), stale_vars0)"
  by (simp add: Solve_init_def zero_vars2_def stale_vars0_def efloat_eval_defs)

lemma stale_iteration1:
  "cg_iteration efloat_rank identity_operator 0 stale_vars0 = Some stale_vars1"
  by (simp add: cg_iteration_def stale_vars0_def stale_vars1_def efloat_eval_defs)

lemma stale_solve:
  "Solve efloat_rank identity_operator (self zero_vars2) [Finite 0, Finite 0]
     [Finite 3, Finite 4] (Finite (1 / 1024)) 1
     = Some (1, stale_vars1)"
proof -
  have "cg_loop efloat_rank identity_operator 1 (Finite (25 / 1048576)) 1 stale_vars1
          = Some (1, stale_vars1)"
    by (simp add: cg_loop.simps [of _ _ _ _ 1])
  then have "cg_loop efloat_rank identity_operator 1 (Finite (25 / 1048576)) 0 stale_vars0
          = Some (1, stale_vars1)"
    by (simp add: cg_loop.simps [of _ _ _ _ 0] stale_iteration1)
       (simp add: stale_vars0_def less_eq_efloat_def)
  then show ?thesis
    by (simp add: Solve_def stale_init)
qed
section \<open>Facts about the order in time\<close>

lemma exec_inv_start: "exec_inv exec_start"
  unfolding exec_inv_def exec_start_def
  by (rule conjI, rule exI [of _ 0]) (simp_all add: issued_by_def)

lemma upto7:
  "k \<le> 7 \<Longrightarrow> k = 0 \<or> k = 1 \<or> k = 2 \<or> k = 3 \<or> k = 4 \<or> k = 5 \<or> k = 6 \<or> k = (7::nat)"
  by arith

lemma exec_inv_device:
  assumes "exec_inv c" "step Device c = Some c'"
  shows "exec_inv c'"
  using assms by (auto simp add: exec_inv_def split: if_splits)

lemma drop_from_3_of_4:
  assumes "3 \<le> n" "n \<le> 4"
  shows "drop n [a, b, c, d] = [] \<or> drop n [a, b, c, d] = [d]"
proof -
  have "n = 3 \<or> n = 4" using assms by arith
  then show ?thesis by (auto simp add: eval_nat_numeral)
qed

lemma exec_inv_host:
  assumes inv: "exec_inv c" and st: "step Host c = Some c'"
  shows "exec_inv c'"
proof -
  obtain k where k: "k \<le> 7" "todo c = drop k UpdateCG_host"
    "issued c = issued_by (take k UpdateCG_host)"
    "4 \<le> k \<longrightarrow> tag c = 3" "6 \<le> k \<longrightarrow> 3 \<le> completed c"
    "k < 7 \<longrightarrow> reduced_with c = None"
    and le: "completed c \<le> length (issued c)"
    using inv unfolding exec_inv_def by blast
  have k7: "k \<noteq> 7"
    using st k(2) by (auto simp add: UpdateCG_host_def)
  have n: "Suc k \<le> 7" using k(1) k7 by simp
  consider "k = 0" | "k = 1" | "k = 2" | "k = 3" | "k = 4" | "k = 5" | "k = 6"
    using upto7 [OF k(1)] k7 by blast
  then have "todo c' = drop (Suc k) UpdateCG_host \<and> issued c' = issued_by (take (Suc k) UpdateCG_host)
        \<and> (4 \<le> Suc k \<longrightarrow> tag c' = 3) \<and> (6 \<le> Suc k \<longrightarrow> 3 \<le> completed c')
        \<and> (Suc k < 7 \<longrightarrow> reduced_with c' = None)
        \<and> (Suc k = 7 \<longrightarrow> reduced_with c' = Some [] \<or> reduced_with c' = Some [SolutionUpdate])
        \<and> completed c' \<le> length (issued c')"
  proof cases
    case 1
    then show ?thesis
      using st k le by (auto simp add: UpdateCG_host_def issued_by_def eval_nat_numeral)
  next
    case 2
    then show ?thesis
      using st k le by (auto simp add: UpdateCG_host_def issued_by_def eval_nat_numeral)
  next
    case 3
    then show ?thesis
      using st k le by (auto simp add: UpdateCG_host_def issued_by_def eval_nat_numeral)
  next
    case 4
    then show ?thesis
      using st k le by (auto simp add: UpdateCG_host_def issued_by_def eval_nat_numeral)
  next
    case 5
    then show ?thesis
      using st k le by (auto simp add: UpdateCG_host_def issued_by_def eval_nat_numeral)
  next
    case 6
    then show ?thesis
      using st k le
      by (auto simp add: UpdateCG_host_def issued_by_def eval_nat_numeral split: if_splits)
  next
    case 7
    then have i: "issued c = [SetAccumulator, ResidualKernel, CopyAccumulator, SolutionUpdate]"
      and t: "todo c = [Allreduce]" and c3: "3 \<le> completed c"
      using k by (simp_all add: UpdateCG_host_def issued_by_def eval_nat_numeral)
    have c4: "completed c \<le> 4" using le i by simp
    have c': "c' = c \<lparr> todo := [], reduced_with := Some (outstanding c) \<rparr>"
      using st t by simp
    have "outstanding c = [] \<or> outstanding c = [SolutionUpdate]"
      unfolding outstanding_def i using c3 c4 by (rule drop_from_3_of_4)
    then show ?thesis
      using 7 c' i c3 c4 k(4)
      by (auto simp add: UpdateCG_host_def issued_by_def eval_nat_numeral)
  qed
  then show ?thesis
    unfolding exec_inv_def using n by blast
qed

lemma exec_inv_step: "exec_inv c \<Longrightarrow> step a c = Some c' \<Longrightarrow> exec_inv c'"
  by (cases a) (auto intro: exec_inv_host exec_inv_device)

lemma exec_inv_run: "exec_inv c \<Longrightarrow> run as c = Some c' \<Longrightarrow> exec_inv c'"
proof (induction as arbitrary: c)
  case Nil
  then show ?case by simp
next
  case (Cons a as)
  then show ?case
    by (auto split: option.splits dest: exec_inv_step)
qed

section \<open>Claims about the local operator\<close>

text \<open>
  C1 asks that \<^verbatim>\<open>LocalOperator\<close> leave the operator image in the output argument it
  was given. Evaluated on a device where the input \<open>o_qL\<close> is buffer 0 with contents
  \<open>[1, 2, 3, 4]\<close>, the argument \<open>o_Aq\<close> is buffer 1 and the field \<open>o_AqL\<close> is buffer
  2, with the operator that doubles every entry: after the call buffer 1 still holds
  its zeros, and the image \<open>[2, 4, 6, 8]\<close> is in buffer 2.
\<close>

theorem LocalOperator_writes_member_not_argument:
  "dev (LocalOperator example_hipBone 0 1 \<lparr> dev = example_device, launches = [] \<rparr>) 1
     = [0, 0, 0, 0]
   \<and> dev (LocalOperator example_hipBone 0 1 \<lparr> dev = example_device, launches = [] \<rparr>) 2
     = [2, 4, 6, 8]"
  by (simp add: LocalOperator_def launch_kernel_def scale_kernel_def example_hipBone_def
      example_mesh_def example_device_def c_div_def signed_divide_int_def len_def occa_plus_def
      second_half_offset_def sizeof_dlong_def)

text \<open>
  C4, as the code has it: for every local-only count \<open>n\<close> with \<open>0 \<le> n < INT_MAX\<close>
  and element lists as long as their counts, the elements the launches visit are, in
  order, the first \<open>n div 2\<close> entries of the local-only list, the halo-dependent list,
  and the remaining entries of the local-only list from offset \<open>n div 2\<close> on; so they
  are the two lists' elements with the same multiplicities, none left out and none
  twice. The count of the last launch is \<open>n - n div 2\<close>.
\<close>

theorem LocalOperator_partition_coverage:
  assumes nl: "0 \<le> sint (NlocalGatherElements (mesh hb))"
              "sint (NlocalGatherElements (mesh hb)) < 2147483647"
      and ll: "length (o_localGatherElementList (mesh hb)) = len (NlocalGatherElements (mesh hb))"
      and lg: "length (o_globalGatherElementList (mesh hb)) = len (NglobalGatherElements (mesh hb))"
  shows "dispatched_elements (LocalOperator hb q a \<lparr> dev = d, launches = [] \<rparr>)
           = take (len (NlocalGatherElements (mesh hb)) div 2) (o_localGatherElementList (mesh hb))
             @ o_globalGatherElementList (mesh hb)
             @ drop (len (NlocalGatherElements (mesh hb)) div 2) (o_localGatherElementList (mesh hb))
         \<and> mset (dispatched_elements (LocalOperator hb q a \<lparr> dev = d, launches = [] \<rparr>))
           = mset (o_localGatherElementList (mesh hb)) + mset (o_globalGatherElementList (mesh hb))
         \<and> sint (c_div (NlocalGatherElements (mesh hb) + 1) 2)
           = sint (NlocalGatherElements (mesh hb)) - sint (NlocalGatherElements (mesh hb)) div 2"
proof -
  let ?nl = "NlocalGatherElements (mesh hb)"
  let ?L = "o_localGatherElementList (mesh hb)"
  let ?G = "o_globalGatherElementList (mesh hb)"
  have e1: "launch_elements \<lparr> l_count = c_div ?nl 2, l_list = ?L \<rparr> = take (len ?nl div 2) ?L"
    using nl(1) by (simp add: launch_elements_def len_half)
  have e2: "launch_elements \<lparr> l_count = NglobalGatherElements (mesh hb), l_list = ?G \<rparr> = ?G"
    by (simp add: launch_elements_def lg)
  have e3: "launch_elements \<lparr> l_count = c_div (?nl + 1) 2,
              l_list = occa_plus ?L (second_half_offset ?nl) \<rparr> = drop (len ?nl div 2) ?L"
    using nl by (simp add: launch_elements_def occa_plus_def offset_half len_second_half ll)
  have eq: "dispatched_elements (LocalOperator hb q a \<lparr> dev = d, launches = [] \<rparr>)
      = take (len ?nl div 2) ?L @ ?G @ drop (len ?nl div 2) ?L"
    unfolding dispatched_LocalOperator
    by (simp add: dispatches_def Let_def e1 e2 e3)
  have ms: "mset (take (len ?nl div 2) ?L @ ?G @ drop (len ?nl div 2) ?L) = mset ?L + mset ?G"
    by (rule mset_take_mid_drop)
  show ?thesis
    unfolding eq ms using sint_second_half [OF nl] by simp
qed

theorem LocalOperator_partition_coverage_witness:
  "dispatched_elements
     (LocalOperator example_hipBone 0 2 \<lparr> dev = example_device, launches = [] \<rparr>) = [0, 1, 2, 3]
   \<and> mset (dispatched_elements
        (LocalOperator example_hipBone 0 2 \<lparr> dev = example_device, launches = [] \<rparr>))
     = mset [0, 2, 3] + mset [1]
   \<and> sint (c_div (3 + 1) 2) = (2 :: int)"
  using LocalOperator_partition_coverage [of example_hipBone 0 2 example_device]
  by (simp add: example_hipBone_def example_mesh_def len_def)

text \<open>
  At the count \<open>INT_MAX\<close> the sum \<^verbatim>\<open>mesh.NlocalGatherElements+1\<close> leaves the 32-bit
  integers: the count of the last launch is \<open>-1073741824\<close> instead of
  \<open>n - n div 2 = 1073741824\<close>, and of the \<open>2147483647\<close> listed elements only the
  first \<open>1073741823\<close> are visited.
\<close>

theorem LocalOperator_partition_coverage_counterexample:
  "length (o_localGatherElementList overflow_mesh) = len (NlocalGatherElements overflow_mesh)
   \<and> sint (NlocalGatherElements overflow_mesh) - sint (NlocalGatherElements overflow_mesh) div 2
       = 1073741824
   \<and> sint (c_div (NlocalGatherElements overflow_mesh + 1) 2) = - 1073741824
   \<and> length (dispatched_elements
        (LocalOperator (example_hipBone \<lparr> mesh := overflow_mesh \<rparr>) 0 2
           \<lparr> dev = example_device, launches = [] \<rparr>)) = 1073741823"
  by (simp add: dispatched_LocalOperator dispatches_def launch_elements_def overflow_mesh_def
      len_def c_div_def signed_divide_int_def)

text \<open>
  C7: the launches \<^verbatim>\<open>LocalOperator\<close> issues are exactly those of its three dispatches
  whose element count is not zero, in order; the state after the call is the state
  before it with those launches applied and nothing else, so a dispatch with count zero
  launches no kernel and writes nothing. When all three counts are zero the device is
  as it was.
\<close>

theorem LocalOperator_skips_empty_dispatches:
  "LocalOperator hb q a st =
     foldl (\<lambda>s l. launch_kernel hb (l_count l) (l_list l) q (o_AqL hb) s) st
       (filter (\<lambda>l. l_count l \<noteq> 0) (dispatches hb))
   \<and> launches (LocalOperator hb q a st)
       = launches st @ filter (\<lambda>l. l_count l \<noteq> 0) (dispatches hb)
   \<and> ((\<forall>l \<in> set (dispatches hb). l_count l = 0) \<longrightarrow> LocalOperator hb q a st = st)"
proof -
  have "(\<forall>l \<in> set (dispatches hb). l_count l = 0)
      \<longrightarrow> filter (\<lambda>l. l_count l \<noteq> 0) (dispatches hb) = []"
    by (simp add: filter_empty_conv)
  then show ?thesis
    by (auto simp add: LocalOperator_fold launches_foldl)
qed

theorem LocalOperator_skips_empty_dispatches_witness:
  "map l_count (dispatches (example_hipBone \<lparr> mesh := empty_mesh \<rparr>)) = [0, 0, 0]
   \<and> LocalOperator (example_hipBone \<lparr> mesh := empty_mesh \<rparr>) 0 2
        \<lparr> dev = example_device, launches = [] \<rparr> = \<lparr> dev = example_device, launches = [] \<rparr>
   \<and> map (\<lambda>l. sint (l_count l))
        (launches (LocalOperator (example_hipBone \<lparr> mesh := example_mesh
             \<lparr> NlocalGatherElements := 1, o_localGatherElementList := [0],
               NglobalGatherElements := 0, o_globalGatherElementList := [] \<rparr> \<rparr>) 0 2
           \<lparr> dev = example_device, launches = [] \<rparr>)) = [1]"
  using LocalOperator_skips_empty_dispatches
    [of "example_hipBone \<lparr> mesh := empty_mesh \<rparr>" 0 2 "\<lparr> dev = example_device, launches = [] \<rparr>"]
    LocalOperator_skips_empty_dispatches
    [of "example_hipBone \<lparr> mesh := example_mesh
             \<lparr> NlocalGatherElements := 1, o_localGatherElementList := [0],
               NglobalGatherElements := 0, o_globalGatherElementList := [] \<rparr> \<rparr>" 0 2
        "\<lparr> dev = example_device, launches = [] \<rparr>"]
  by (simp add: dispatches_def empty_mesh_def example_mesh_def c_div_def signed_divide_int_def
      launches_launch_kernel)

section \<open>Claims about the solver\<close>

text \<open>
  C3: with vectors of at least \<open>N\<close> entries the preparations of \<^verbatim>\<open>Solve\<close> succeed:
  the residual has been updated to \<open>r - A x\<close> over the \<open>N\<close> entries, \<open>rdotr\<close> is the
  square of its global norm and
  \<open>TOL = max (tol\<^sup>2 \<cdot> rdotr) (tol\<^sup>2)\<close>; the loop, entered with \<open>rdotr \<le> TOL\<close> at any
  count, returns that count and the variables unchanged; so when the initial residual
  has \<open>rdotr \<le> TOL\<close>, \<^verbatim>\<open>Solve\<close> performs no iteration and returns 0. This holds for
  every operator and whatever the reductions compute.
\<close>

theorem Solve_tolerance_exit:
  fixes la :: "dfloat reductions"
  assumes "len (N s) \<le> length r" and "len (N s) \<le> length (snd (Op x (o_Ap s)))"
  shows "\<exists>TOL v. Solve_init la Op s x r tol = Some (TOL, v)
           \<and> axpy (N s) (- 1) (snd (Op x (o_Ap s))) 1 r = Some (o_r v)
           \<and> rdotr v = (norm2 la (N s) (o_r v))\<^sup>2
           \<and> TOL = max (tol\<^sup>2 * rdotr v) (tol\<^sup>2)
           \<and> (\<forall>i w. rdotr w \<le> TOL \<longrightarrow> cg_loop la Op MAXIT TOL i w = Some (i, w))
           \<and> (rdotr v \<le> TOL \<longrightarrow> Solve la Op s x r tol MAXIT = Some (0, v))"
proof -
  obtain TOL v where i: "Solve_init la Op s x r tol = Some (TOL, v)"
    using Solve_init_returns [of s r Op x la tol] assms by blast
  have "rdotr v \<le> TOL \<longrightarrow> Solve la Op s x r tol MAXIT = Some (0, v)"
    using i by (simp add: Solve_def cg_loop_exit)
  then show ?thesis
    using Solve_init_Some [OF i] i
    by (simp add: mymax_eq_max power2_eq_square cg_loop_exit)
qed

theorem Solve_tolerance_exit_witness:
  "Solve_init single_rank identity_operator example_cg1 [0] [1 / 1024] (1 / 64)
     = Some (1 / 4096, example_vars_small (1 / 1024))
   \<and> rdotr (example_vars_small (1 / 1024)) = 1 / 1048576
   \<and> Solve single_rank identity_operator example_cg1 [0] [1 / 1024] (1 / 64) 10
     = Some (0, example_vars_small (1 / 1024))"
proof -
  have i: "Solve_init single_rank identity_operator example_cg1 [0] [1 / 1024] (1 / 64)
     = Some (1 / 4096, example_vars_small (1 / 1024))"
    by (simp add: example_small_init mymax_def)
  have "len (N example_cg1) \<le> length [1 / 1024 :: dfloat]"
    and "len (N example_cg1) \<le> length (snd (identity_operator [0] (o_Ap example_cg1)))"
    by (simp_all add: example_cg1_def len_def identity_operator_def)
  then show ?thesis
    using Solve_tolerance_exit
      [of example_cg1 "[1 / 1024]" identity_operator "[0]" single_rank "1 / 64" 10]
    by (simp add: i) (simp add: example_vars_small_def)
qed




text \<open>
  C6 as stated fails in several ways. When the initial residual already meets the
  tolerance (the identity on one unknown, the initial guess zero and the right-hand side
  \<open>1 / 1024\<close> with \<open>tol = 1 / 64\<close>, or the right-hand side zero), \<^verbatim>\<open>Solve\<close> returns 0
  and leaves \<open>x\<close> zero. With \<^verbatim>\<open>MAXIT\<close> zero it returns 0. When the square of the norm
  of the right-hand side is not its inner product with itself, as with a rounded norm,
  the first step length is not 1: for the right-hand side \<open>(1, 1)\<close> and the norm
  \<open>3 / 2\<close>, \<^verbatim>\<open>Solve\<close> makes two iterations and leaves \<open>x = (63 / 64, 63 / 64)\<close>. When
  the square of the norm overflows (the right-hand side \<open>2\<^sup>6\<^sup>0\<^sup>0\<close>), \<open>rdotr\<close> and \<open>TOL\<close>
  are both infinite, the test \<open>rdotr \<le> TOL\<close> holds and \<^verbatim>\<open>Solve\<close> returns 0 with \<open>x\<close>
  zero. When the scratch vector \<open>p\<close> holds NaN from an earlier run, the first direction
  \<open>r + 0 \<cdot> p\<close> is NaN and so is \<open>x\<close> after the iteration.
\<close>

theorem Solve_identity_one_iteration_counterexample:
  "Solve single_rank identity_operator example_cg1 [0] [1 / 1024] (1 / 64) 10
     = Some (0, example_vars_small (1 / 1024))
   \<and> o_x (example_vars_small (1 / 1024)) = [0]
   \<and> o_x (example_vars_small (1 / 1024)) \<noteq> [1 / 1024]
   \<and> Solve single_rank identity_operator example_cg1 [0] [0] (1 / 1048576) 10
     = Some (0, example_vars_small 0)
   \<and> Solve single_rank identity_operator example_cg1 [0] [1] (1 / 1024) 0
     = Some (0, example_vars_small 1)
   \<and> Solve rounded_rank identity_operator example_cg [0, 0, 0] [1, 1, 0] (1 / 16) 10
     = Some (2, rounded_vars2)
   \<and> o_x rounded_vars2 = [63 / 64, 63 / 64, 0]
   \<and> o_x rounded_vars2 \<noteq> [1, 1, 0]
   \<and> Solve efloat_rank identity_operator efloat_cg1 [Finite 0] [Finite (2 ^ 600)]
       (Finite (1 / 1024)) 10
     = Some (0, overflow_vars)
   \<and> o_x overflow_vars = [Finite 0]
   \<and> Solve efloat_rank identity_operator (self zero_vars2) [Finite 0, Finite 0]
       [Finite 3, Finite 4] (Finite (1 / 1024)) 1
     = Some (1, stale_vars1)
   \<and> o_x stale_vars1 = [NaN, NaN]"
proof -
  have "Solve single_rank identity_operator example_cg1 [0] [1 / 1024] (1 / 64) 10
     = Some (0, example_vars_small (1 / 1024))
   \<and> o_x (example_vars_small (1 / 1024)) = [0]
   \<and> o_x (example_vars_small (1 / 1024)) \<noteq> [1 / 1024]
   \<and> Solve single_rank identity_operator example_cg1 [0] [0] (1 / 1048576) 10
     = Some (0, example_vars_small 0)
   \<and> Solve single_rank identity_operator example_cg1 [0] [1] (1 / 1024) 0
     = Some (0, example_vars_small 1)"
    by (simp add: Solve_def example_small_init cg_loop_exit cg_loop.simps [of _ _ 0] mymax_def
        example_vars_small_def)
  moreover have "o_x rounded_vars2 = [63 / 64, 63 / 64, 0]" "o_x rounded_vars2 \<noteq> [1, 1, 0]"
    by (simp_all add: rounded_vars2_def)
  moreover have "o_x overflow_vars = [Finite 0]" "o_x stale_vars1 = [NaN, NaN]"
    by (simp_all add: overflow_vars_def stale_vars1_def)
  ultimately show ?thesis
    using rounded_solve overflow_solve stale_solve by blast
qed

text \<open>
  C6, as the code has it, for every element type and whatever the reductions compute.
  Let the operator act as the identity on the \<open>N\<close> owned entries, \<open>x\<close> be zero there,
  the vectors be long enough, \<open>N \<le> INT_MAX - 1023\<close> and \<open>MAXIT \<ge> 1\<close>. Let \<open>rd\<close> be the
  square of the norm that \<^verbatim>\<open>norm2\<close> returns for the right-hand side and
  \<open>TOL = mymax (tol \<cdot> tol \<cdot> rd) (tol \<cdot> tol)\<close>, as the code computes them. When

    \<^item> the test \<open>rd \<le> TOL\<close> fails,
    \<^item> the quotient of \<open>rd\<close> by the inner product \<open>pAp\<close> is exactly 1,
    \<^item> the operations on the entries \<open>v\<close> of the right-hand side are exact:
      \<open>(-1) \<cdot> 0 + 1 \<cdot> v = v\<close> for the initial residual, \<open>1 \<cdot> v + 0 \<cdot> w = v\<close> for the first
      direction, where \<open>w\<close> is the entry of \<open>p\<close> at the same place, \<open>v - 1 \<cdot> v = 0\<close> for
      the new residual, \<open>1 \<cdot> v + 1 \<cdot> 0 = v\<close> for the new \<open>x\<close>, and \<open>0 \<cdot> 0 + 0 = 0\<close> and
      \<open>0 + 0 = 0\<close> for the sum of squares of the new residual, and
    \<^item> the reduced sum for the zero residual meets \<open>TOL\<close>,

  \<^verbatim>\<open>Solve\<close> returns 1, the owned entries of \<open>x\<close> are those of the right-hand side, the
  owned entries of \<open>r\<close> are zero and the other entries of \<open>x\<close> and \<open>r\<close> are as before.
  No law of arithmetic is used: the conditions are about the values the arithmetic of
  the element type gives. In the real numbers with the reductions of one process the
  second (given the first) and the third always hold. In floating-point arithmetic they
  do not, and the
  runs above show what each condition excludes: a norm whose square overflows fails the
  first, a rounded norm the second, NaN in \<open>p\<close> the third.
\<close>

theorem Solve_identity_one_iteration:
  assumes rng: "sint (N s) \<le> 2147482624"
      and id: "\<forall>q a. len (N s) \<le> length q \<longrightarrow>
                 fst (Op q a) = q \<and> len (N s) \<le> length (snd (Op q a))
                 \<and> take (len (N s)) (snd (Op q a)) = take (len (N s)) q"
      and x0: "len (N s) \<le> length x" "take (len (N s)) x = replicate (len (N s)) 0"
      and r0: "len (N s) \<le> length r"
      and p0: "len (N s) \<le> length (o_p s)"
      and mx: "1 \<le> MAXIT"
      and rd: "rd = norm2 la (N s) r * norm2 la (N s) r"
      and TOL: "TOL = mymax (tol * tol * rd) (tol * tol)"
      and nc: "\<not> rd \<le> TOL"
      and al: "\<forall>p A. take (len (N s)) p = take (len (N s)) r
                   \<and> take (len (N s)) A = take (len (N s)) r
                 \<longrightarrow> rd / innerProd la (N s) p A = 1"
      and ex: "\<forall>v\<in>set (take (len (N s)) r).
                 - 1 * 0 + 1 * v = v \<and> v - 1 * v = 0 \<and> 1 * v + 1 * 0 = v"
      and ep: "list_all2 (\<lambda>v w. 1 * v + 0 * w = v)
                 (take (len (N s)) r) (take (len (N s)) (o_p s))"
      and ez: "0 * 0 + 0 = (0::'a)" "0 + 0 = (0::'a)"
      and fin: "Allreduce_sum la 0 \<le> TOL"
  shows "\<exists>v. Solve la Op s x r tol MAXIT = Some (1, v)
            \<and> take (len (N s)) (o_x v) = take (len (N s)) r
            \<and> drop (len (N s)) (o_x v) = drop (len (N s)) x
            \<and> take (len (N s)) (o_r v)
                = replicate (len (N s)) (0::'a::{zero,one,plus,minus,uminus,times,inverse,ord})
            \<and> drop (len (N s)) (o_r v) = drop (len (N s)) r
            \<and> rdotr v = Allreduce_sum la 0"
proof -
  let ?n = "len (N s)"
  \<comment> \<open>the residual of the initial guess\<close>
  obtain Ap1 where O1: "Op x (o_Ap s) = (x, Ap1)"
    and A1: "?n \<le> length Ap1" "take ?n Ap1 = replicate ?n 0"
    using id x0 by (metis prod.collapse)
  have r1: "axpy (N s) (- 1) Ap1 1 r = Some r"
    using A1 r0 ex by (intro axpy_exact_left) simp_all
  let ?v0 = "\<lparr> rdotr = rd, rdotr1 = 0, rdotr2 = 0, alpha = 0, beta = 0, pAp = 0,
               o_x = x, o_r = r, self = s \<lparr> o_Ap := Ap1 \<rparr> \<rparr>"
  have init: "Solve_init la Op s x r tol = Some (TOL, ?v0)"
    by (simp add: Solve_init_def O1 r1 Let_def rd TOL)
  \<comment> \<open>the first iteration\<close>
  let ?p1 = "take ?n r @ drop ?n (o_p s)"
  have p1: "axpy (N s) 1 r 0 (o_p s) = Some ?p1"
    using r0 p0 ep by (rule axpy_exact_both)
  have lp1: "?n \<le> length ?p1" and tp1: "take ?n ?p1 = take ?n r"
    using r0 p0 by simp_all
  obtain Ap2 where O2: "Op ?p1 Ap1 = (?p1, Ap2)"
    and A2: "?n \<le> length Ap2" "take ?n Ap2 = take ?n r"
    using id lp1 tp1 by (metis prod.collapse)
  have a1: "rd / innerProd la (N s) ?p1 Ap2 = 1"
    using al tp1 A2(2) by blast
  have nb: "\<not> (0 < ?n \<and> sint (UpdateCG_Nblocks (N s)) \<le> 0)"
    using UpdateCG_Nblocks_positive [of "N s"] rng by (auto simp add: len_def)
  have k: "updateCGKernel_r (N s) (UpdateCG_Nblocks (N s)) Ap2 1 r 0
             = Some (replicate ?n 0 @ drop ?n r, 0 + 0)"
    using nb r0 A2 ex ez(1) by (intro updateCGKernel_r_exact) simp_all
  have "\<forall>v\<in>set (take ?n ?p1). 1 * v + 1 * 0 = v"
    unfolding tp1 using ex by blast
  then have "axpy (N s) 1 ?p1 1 x = Some (take ?n ?p1 @ drop ?n x)"
    using lp1 x0 by (intro axpy_exact_right)
  then have xup: "axpy (N s) 1 ?p1 1 x = Some (take ?n r @ drop ?n x)"
    unfolding tp1 .
  let ?s2 = "s \<lparr> o_p := ?p1, o_Ap := Ap2 \<rparr>"
  have U: "UpdateCG la ?s2 1 x r
             = Some (Allreduce_sum la 0, take ?n r @ drop ?n x, replicate ?n 0 @ drop ?n r)"
    by (simp add: UpdateCG_def k xup ez(2))
  let ?v1 = "\<lparr> rdotr = Allreduce_sum la 0, rdotr1 = rd, rdotr2 = 0, alpha = 1, beta = 0,
               pAp = innerProd la (N s) ?p1 Ap2,
               o_x = take ?n r @ drop ?n x, o_r = replicate ?n 0 @ drop ?n r, self = ?s2 \<rparr>"
  have step: "cg_iteration la Op 0 ?v0 = Some ?v1"
    by (simp add: cg_iteration_def p1 O2 a1 U Let_def)
  \<comment> \<open>the loop\<close>
  have "cg_loop la Op MAXIT TOL 1 ?v1 = Some (1, ?v1)"
    using fin by (intro cg_loop_exit) simp
  then have "cg_loop la Op MAXIT TOL 0 ?v0 = Some (1, ?v1)"
    using mx nc step by (simp add: cg_loop.simps [of _ _ _ _ 0])
  then have "Solve la Op s x r tol MAXIT = Some (1, ?v1)"
    by (simp add: Solve_def init)
  moreover have "take ?n (o_x ?v1) = take ?n r" "drop ?n (o_x ?v1) = drop ?n x"
    "take ?n (o_r ?v1) = replicate ?n 0" "drop ?n (o_r ?v1) = drop ?n r"
    using r0 by simp_all
  ultimately show ?thesis
    by (intro exI [of _ ?v1]) simp
qed

theorem Solve_identity_one_iteration_witness:
  "(\<exists>v. Solve single_rank identity_operator example_cg [0, 0, 0] [3, 4, 5] (1 / 1024) 10
           = Some (1, v)
        \<and> take 2 (o_x v) = [3, 4]
        \<and> drop 2 (o_x v) = [0]
        \<and> take 2 (o_r v) = [0, 0]
        \<and> drop 2 (o_r v) = [5]
        \<and> rdotr v = 0)
   \<and> (\<exists>v. Solve efloat_rank identity_operator efloat_cg2 [Finite 0, Finite 0]
             [Finite 3, Finite 4] (Finite (1 / 1024)) 10
           = Some (1, v)
        \<and> take 2 (o_x v) = [Finite 3, Finite 4]
        \<and> drop 2 (o_x v) = []
        \<and> take 2 (o_r v) = [Finite 0, Finite 0]
        \<and> drop 2 (o_r v) = []
        \<and> rdotr v = Finite 0)"
proof -
  have "\<exists>v. Solve single_rank identity_operator example_cg [0, 0, 0] [3, 4, 5] (1 / 1024) 10
           = Some (1, v)
        \<and> take 2 (o_x v) = [3, 4]
        \<and> drop 2 (o_x v) = [0]
        \<and> take 2 (o_r v) = [0, 0]
        \<and> drop 2 (o_r v) = [5]
        \<and> rdotr v = 0"
    using Solve_identity_one_iteration
      [of example_cg identity_operator "[0, 0, 0]" "[3, 4, 5]" 10 25 single_rank "25 / 1048576"
          "1 / 1024"]
    by (simp add: example_cg_def identity_operator_def len_def sumsq_def dot_def mymax_def
        single_rank_def numeral_2_eq_2)
  moreover
  have "\<exists>v. Solve efloat_rank identity_operator efloat_cg2 [Finite 0, Finite 0]
             [Finite 3, Finite 4] (Finite (1 / 1024)) 10
           = Some (1, v)
        \<and> take 2 (o_x v) = [Finite 3, Finite 4]
        \<and> drop 2 (o_x v) = []
        \<and> take 2 (o_r v) = [Finite 0, Finite 0]
        \<and> drop 2 (o_r v) = []
        \<and> rdotr v = Finite 0"
    using Solve_identity_one_iteration
      [of efloat_cg2 identity_operator "[Finite 0, Finite 0]" "[Finite 3, Finite 4]" 10
          "Finite 25" efloat_rank "Finite (25 / 1048576)" "Finite (1 / 1024)"]
    by (simp add: efloat_eval_defs numeral_2_eq_2)
  ultimately show ?thesis
    by blast
qed

text \<open>
  C9: every update \<^verbatim>\<open>Solve\<close> and \<^verbatim>\<open>UpdateCG\<close> make themselves has length \<open>N\<close>. So
  when the operator leaves the entries from \<open>N\<close> on of both its buffers as they are,
  the entries from \<open>N\<close> on (the halo) of \<open>x\<close>, \<open>r\<close>, \<open>p\<close> and \<open>Ap\<close> are after
  \<^verbatim>\<open>Solve\<close> what they were before, however many iterations ran; and \<^verbatim>\<open>UpdateCG\<close>,
  which does not call the operator, leaves the halo of \<open>x\<close> and \<open>r\<close> as it was
  whenever it runs.
\<close>

theorem Solve_halo_untouched:
  assumes sol: "Solve la Op s x r tol MAXIT = Some (it, v)"
      and op: "\<forall>q a. drop (len (N s)) (fst (Op q a)) = drop (len (N s)) q
                   \<and> drop (len (N s)) (snd (Op q a)) = drop (len (N s)) a"
  shows "drop (len (N s)) (o_x v) = drop (len (N s)) x
       \<and> drop (len (N s)) (o_r v) = drop (len (N s)) r
       \<and> drop (len (N s)) (o_p (self v)) = drop (len (N s)) (o_p s)
       \<and> drop (len (N s)) (o_Ap (self v)) = drop (len (N s)) (o_Ap s)
       \<and> (\<forall>s' a x0 r0 rd x' r'. UpdateCG la s' a x0 r0 = Some (rd, x', r') \<longrightarrow>
              drop (len (N s')) x' = drop (len (N s')) x0
              \<and> drop (len (N s')) r' = drop (len (N s')) r0)"
proof -
  obtain TOL v0 where i: "Solve_init la Op s x r tol = Some (TOL, v0)"
    and l: "cg_loop la Op MAXIT TOL 0 v0 = Some (it, v)"
    using sol by (auto simp add: Solve_def split: option.splits)
  have f0: "N (self v0) = N s \<and> Nhalo (self v0) = Nhalo s
       \<and> drop (len (N s)) (o_x v0) = drop (len (N s)) x
       \<and> drop (len (N s)) (o_r v0) = drop (len (N s)) r
       \<and> drop (len (N s)) (o_p (self v0)) = drop (len (N s)) (o_p s)
       \<and> drop (len (N s)) (o_Ap (self v0)) = drop (len (N s)) (o_Ap s)"
    using i op by (rule Solve_init_frame)
  have "same_halo (len (N (self v0))) v0 v"
    using l op f0 by (intro cg_loop_frame) simp_all
  then have "drop (len (N s)) (o_x v) = drop (len (N s)) x
       \<and> drop (len (N s)) (o_r v) = drop (len (N s)) r
       \<and> drop (len (N s)) (o_p (self v)) = drop (len (N s)) (o_p s)
       \<and> drop (len (N s)) (o_Ap (self v)) = drop (len (N s)) (o_Ap s)"
    using f0 by (simp add: same_halo_def)
  moreover have "\<forall>s' a x0 r0 rd x' r'. UpdateCG la s' a x0 r0 = Some (rd, x', r') \<longrightarrow>
              drop (len (N s')) x' = drop (len (N s')) x0
              \<and> drop (len (N s')) r' = drop (len (N s')) r0"
    using UpdateCG_frame by blast
  ultimately show ?thesis
    by blast
qed

theorem Solve_halo_untouched_witness:
  "Solve single_rank (diag_operator [1, 64]) example_cg [0, 0, 7] [8, 1, 5] (1 / 1024) 10
     = Some (2, example_vars2)
   \<and> o_x example_vars2 = [8, 1 / 64, 7]
   \<and> drop 2 (o_x example_vars2) = drop 2 [0, 0, 7]
   \<and> drop 2 (o_r example_vars2) = drop 2 [8, 1, 5]
   \<and> drop 2 (o_p (self example_vars2)) = drop 2 (o_p example_cg)
   \<and> drop 2 (o_Ap (self example_vars2)) = drop 2 (o_Ap example_cg)"
proof -
  have l: "len (N example_cg) = length [1, 64 :: dfloat]"
    by (simp add: example_cg_def len_def)
  have op: "\<forall>q a. drop (len (N example_cg)) (fst (diag_operator [1, 64 :: dfloat] q a))
                     = drop (len (N example_cg)) q
                 \<and> drop (len (N example_cg)) (snd (diag_operator [1, 64] q a))
                     = drop (len (N example_cg)) a"
    unfolding l by (intro allI diag_operator_frame)
  show ?thesis
    using Solve_halo_untouched [OF example_solve op]
    by (simp add: example_solve) (simp add: example_vars2_def example_cg_def len_def)
qed

text \<open>
  C10: whenever \<open>N + Nhalo\<close> is a size (not negative as an \<^verbatim>\<open>int\<close>), the constructor
  builds the solver, with the sizes as given and both scratch vectors \<open>p\<close> and \<open>Ap\<close>
  of length \<open>N + Nhalo\<close> with every entry zero. The first update \<open>p \<leftarrow> r + 0 \<cdot> p\<close> then
  succeeds and every entry it reads from \<open>p\<close> is such a zero: the owned entries
  become \<open>1 \<cdot> r\<^sub>i + 0 \<cdot> 0\<close> and the halo stays zero. This holds for every element type.
\<close>

theorem cg_scratch_zero:
  assumes "0 \<le> sint (n + h)"
  shows "\<exists>s. cg n h = Some s
           \<and> s = \<lparr> N = n, Nhalo = h, o_p = replicate (len (n + h)) 0,
                   o_Ap = replicate (len (n + h)) 0 \<rparr>
           \<and> (\<forall>r. len n \<le> length r \<and> len n \<le> len (n + h) \<longrightarrow>
                 axpy n 1 r 0 (o_p s)
                   = Some (map (\<lambda>v. 1 * v + 0 * 0) (take (len n) r)
                           @ replicate (len (n + h) - len n) 0))"
proof -
  let ?s = "\<lparr> N = n, Nhalo = h, o_p = replicate (len (n + h)) (0::'a),
               o_Ap = replicate (len (n + h)) 0 \<rparr>"
  have c: "cg n h = Some ?s"
    using assms by (simp add: cg_def Let_def)
  have "axpy n 1 r 0 (o_p ?s)
          = Some (map (\<lambda>v. 1 * v + 0 * 0) (take (len n) r) @ replicate (len (n + h) - len n) 0)"
    if "len n \<le> length r" "len n \<le> len (n + h)" for r :: "'a list"
  proof -
    have "map2 (\<lambda>x y. 1 * x + 0 * y) (take (len n) r) (replicate (len n) (0::'a))
            = map (\<lambda>v. 1 * v + 0 * 0) (take (len n) r)"
      by (rule map2_replicate_right) (use that(1) in simp)
    then show ?thesis
      using that by (simp add: axpy_def min_def)
  qed
  then show ?thesis
    using c by (intro exI [of _ ?s]) simp
qed

theorem cg_scratch_zero_witness:
  "cg 2 1 = Some example_cg
   \<and> o_p example_cg = replicate 3 0
   \<and> o_Ap example_cg = replicate 3 0
   \<and> axpy 2 1 [8, 1, 5] 0 (o_p example_cg) = Some [8, 1, 0]"
proof -
  have s: "(0::int) \<le> sint (2 + 1 :: dlong)"
    by simp
  have l: "len (2 + 1) = 3" "len 2 = 2"
    by (simp_all add: len_def)
  have e: "\<lparr> N = 2, Nhalo = 1, o_p = replicate 3 0, o_Ap = replicate 3 0 \<rparr> = example_cg"
    by (simp add: example_cg_def eval_nat_numeral)
  show ?thesis
    using cg_scratch_zero [OF s, where 'a = dfloat] unfolding l e
    by (simp add: example_cg_def eval_nat_numeral)
qed
section \<open>Claims about the order in time\<close>

text \<open>
  C2 as stated fails: the tag is taken after the transfer is started and before the
  solution update is issued, so \<^verbatim>\<open>waitFor(tag)\<close> returns when the transfer has
  completed, whether or not the solution update has. In the execution below the host
  issues everything, the device completes the first three operations, \<^verbatim>\<open>waitFor\<close>
  returns, and the host enters the reduction while the solution update is outstanding.
\<close>

theorem UpdateCG_reduction_overlaps_solution_update:
  "run [Host, Host, Host, Host, Host, Device, Device, Device, Host, Host] exec_start
     = Some \<lparr> todo = [],
              issued = [SetAccumulator, ResidualKernel, CopyAccumulator, SolutionUpdate],
              completed = 3, tag = 3, reduced_with = Some [SolutionUpdate] \<rparr>"
  by (simp add: exec_start_def UpdateCG_host_def outstanding_def)

text \<open>
  C2, as the code has it: in every execution of \<^verbatim>\<open>UpdateCG\<close>, when the host has entered
  the reduction it has run all its commands before it, and the accumulator reset, the
  residual kernel and the transfer of the accumulator had completed at that moment; the
  only operation that can have been outstanding is the solution update.
\<close>

theorem UpdateCG_reduction_after_transfer:
  assumes "run sched exec_start = Some c" and "reduced_with c = Some ops"
  shows "todo c = []
       \<and> issued c = [SetAccumulator, ResidualKernel, CopyAccumulator, SolutionUpdate]
       \<and> CopyAccumulator \<notin> set ops \<and> ResidualKernel \<notin> set ops \<and> SetAccumulator \<notin> set ops
       \<and> (ops = [] \<or> ops = [SolutionUpdate])"
proof -
  have "exec_inv c"
    using exec_inv_start assms(1) by (rule exec_inv_run)
  then obtain k where k: "k \<le> 7" "todo c = drop k UpdateCG_host"
    "issued c = issued_by (take k UpdateCG_host)"
    "k < 7 \<longrightarrow> reduced_with c = None"
    "k = 7 \<longrightarrow> reduced_with c = Some [] \<or> reduced_with c = Some [SolutionUpdate]"
    unfolding exec_inv_def by blast
  have "k = 7"
    using k(1,4) assms(2) by (cases "k < 7") simp_all
  then show ?thesis
    using k assms(2) by (auto simp add: UpdateCG_host_def issued_by_def)
qed

theorem UpdateCG_reduction_after_transfer_witness:
  "run [Host, Host, Host, Device, Host, Device, Host, Device, Host, Device, Host] exec_start
     = Some \<lparr> todo = [],
              issued = [SetAccumulator, ResidualKernel, CopyAccumulator, SolutionUpdate],
              completed = 4, tag = 3, reduced_with = Some [] \<rparr>
   \<and> CopyAccumulator \<notin> set ([] :: dev_op list)"
proof -
  have r: "run [Host, Host, Host, Device, Host, Device, Host, Device, Host, Device, Host] exec_start
     = Some \<lparr> todo = [],
              issued = [SetAccumulator, ResidualKernel, CopyAccumulator, SolutionUpdate],
              completed = 4, tag = 3, reduced_with = Some [] \<rparr>"
    by (simp add: exec_start_def UpdateCG_host_def outstanding_def)
  show ?thesis
    using UpdateCG_reduction_after_transfer [OF r, of "[]"] r by simp
qed

section \<open>Claims about the block count of the fused update\<close>

text \<open>
  C8, as the code has it: for every problem size \<open>N\<close> with
  \<open>0 \<le> N \<le> 2147482624 = INT_MAX - 1023\<close> the number of blocks is
  \<open>min \<lceil>N / 1024\<rceil> 1024\<close>: it grows with \<open>N\<close> up to the cap 1024 and stays there.
\<close>

theorem UpdateCG_Nblocks_capped:
  assumes "0 \<le> sint n" and "sint n \<le> 2147482624"
  shows "sint (UpdateCG_Nblocks n) = min \<lceil>real_of_int (sint n) / 1024\<rceil> 1024"
  unfolding ceiling_div_1024 using assms by (rule sint_UpdateCG_Nblocks)

theorem UpdateCG_Nblocks_capped_witness:
  "0 \<le> sint (5000 :: dlong) \<and> sint (5000 :: dlong) \<le> 2147482624
   \<and> sint (UpdateCG_Nblocks 5000) = 5
   \<and> sint (UpdateCG_Nblocks 5000) = min \<lceil>real_of_int (sint (5000 :: dlong)) / 1024\<rceil> 1024"
  using UpdateCG_Nblocks_capped [of 5000] by simp

text \<open>
  Beyond that range the sum \<^verbatim>\<open>N+CG_BLOCKSIZE-1\<close> leaves the 32-bit integers: at
  \<open>N = 2147483647\<close> it wraps to a negative value and the block count is \<open>-2097151\<close>,
  not the cap.
\<close>

theorem UpdateCG_Nblocks_counterexample:
  "sint (UpdateCG_Nblocks 2147483647) = - 2097151
   \<and> min \<lceil>real_of_int (sint (2147483647 :: dlong)) / 1024\<rceil> 1024 = 1024
   \<and> sint (UpdateCG_Nblocks 2147483647)
       \<noteq> min \<lceil>real_of_int (sint (2147483647 :: dlong)) / 1024\<rceil> 1024"
  by (simp add: UpdateCG_Nblocks_def c_div_def CG_BLOCKSIZE_def signed_divide_int_def)

end
